theory Spec2Isabelle
  imports Complex_Main
begin

section \<open>Values, dictionaries and data frames\<close>

text \<open>
  The pipeline of \<^verbatim>\<open>kaggle_etl_dag.py\<close> hands lists of Python dictionaries
  from task to task (\<^verbatim>\<open>xcom_push\<close> / \<^verbatim>\<open>xcom_pull\<close>) and turns each list
  into a pandas data frame. A cell holds a number, a text or the null marker
  of pandas (\<^verbatim>\<open>nan\<close>). Numbers are kept exact: an integer cell and a finite float
  cell are both a rational, so that \<^verbatim>\<open>1 == 1.0\<close> as in Python; the 64-bit
  bounds, the rounding of floats and infinite floats are outside the model.
\<close>

datatype val = VNum rat | VStr string | NaN

text \<open>A Python dictionary keeps its insertion order: an association list.\<close>

type_synonym pydict = "(string \<times> val) list"

datatype error = ValueError string | KeyError string | StatementError string

record dataframe =
  columns :: "string list"
  rows :: "val list list"

text \<open>
  First occurrences in their order: the column order of a frame built from
  dictionaries, and the rows that \<^verbatim>\<open>drop_duplicates\<close> keeps.
\<close>

fun keep_first :: "'a list \<Rightarrow> 'a list \<Rightarrow> 'a list" where
  "keep_first seen [] = []"
| "keep_first seen (x # xs) =
     (if x \<in> set seen then keep_first seen xs else x # keep_first (x # seen) xs)"

definition dict_get :: "pydict \<Rightarrow> string \<Rightarrow> val" where
  "dict_get d k = (case map_of d k of None \<Rightarrow> NaN | Some v \<Rightarrow> v)"

fun dict_set :: "pydict \<Rightarrow> string \<Rightarrow> val \<Rightarrow> pydict" where
  "dict_set [] k v = [(k, v)]"
| "dict_set ((k', v') # d) k v =
     (if k' = k then (k, v) # d else (k', v') # dict_set d k v)"

text \<open>\<^verbatim>\<open>dict(pairs)\<close>: a later pair with the same key overwrites the value.\<close>

definition dict_of :: "(string \<times> val) list \<Rightarrow> pydict" where
  "dict_of kvs = foldl (\<lambda>d (k, v). dict_set d k v) [] kvs"

text \<open>
  \<^verbatim>\<open>pd.DataFrame(list_of_dicts)\<close>: the columns are the keys of all the
  dictionaries, a key that a dictionary lacks gives a null cell. An empty
  list (or \<^verbatim>\<open>None\<close>) gives a frame with no column and no row.
\<close>

definition DataFrame :: "pydict list \<Rightarrow> dataframe" where
  "DataFrame recs =
     (let cols = keep_first [] (concat (map (map fst) recs))
      in \<lparr>columns = cols, rows = map (\<lambda>d. map (dict_get d) cols) recs\<rparr>)"

definition DataFrame_opt :: "pydict list option \<Rightarrow> dataframe" where
  "DataFrame_opt x = (case x of None \<Rightarrow> DataFrame [] | Some recs \<Rightarrow> DataFrame recs)"

text \<open>The cell of a row under a column name.\<close>

definition cell :: "string list \<Rightarrow> val list \<Rightarrow> string \<Rightarrow> val" where
  "cell cols row c = dict_get (zip cols row) c"

text \<open>\<^verbatim>\<open>df[c]\<close>, the column as the list of its cells.\<close>

definition col :: "dataframe \<Rightarrow> string \<Rightarrow> val list" where
  "col df c = map (\<lambda>row. cell (columns df) row c) (rows df)"

text \<open>\<^verbatim>\<open>df.to_dict('records')\<close>: one dictionary per row.\<close>

definition to_dict_records :: "dataframe \<Rightarrow> pydict list" where
  "to_dict_records df = map (\<lambda>row. dict_of (zip (columns df) row)) (rows df)"

text \<open>\<^verbatim>\<open>df.empty\<close>: some axis has length 0.\<close>

definition empty_df :: "dataframe \<Rightarrow> bool" where
  "empty_df df = (rows df = [] \<or> columns df = [])"

section \<open>Staging: \<^verbatim>\<open>load_data_to_mysql\<close>\<close>

text \<open>
  The staging table is the list of its rows, in insertion order.
  \<^verbatim>\<open>SELECT Order_Number FROM kaggle_data_staging\<close> reads one cell per row (a
  SQL NULL reads as the null marker). \<^verbatim>\<open>to_sql(..., if_exists='append')\<close>
  adds the rows of the frame after the existing ones. Values are taken to
  come back from the table as they were written.
\<close>

type_synonym table = "pydict list"

definition read_sql_Order_Number :: "table \<Rightarrow> val list" where
  "read_sql_Order_Number t = map (\<lambda>r. dict_get r ''Order_Number'') t"

definition to_sql_append :: "dataframe \<Rightarrow> table \<Rightarrow> table" where
  "to_sql_append df t = t @ to_dict_records df"

text \<open>\<^verbatim>\<open>s.isin(values)\<close>; the null marker matches a null among the values.\<close>

definition isin :: "val \<Rightarrow> val list \<Rightarrow> bool" where
  "isin v vs = (v \<in> set vs)"

text \<open>
  The stage returns the value it pushes for the next task and the staging
  table it leaves. The check of the column comes before any access to the
  table.
\<close>

definition load_data_to_mysql ::
  "pydict list \<Rightarrow> table \<Rightarrow> (error + pydict list) \<times> table" where
  "load_data_to_mysql xcom_extracted staging =
     (let extracted_data = DataFrame xcom_extracted
      in if ''Order_Number'' \<notin> set (columns extracted_data)
         then (Inl (ValueError ''Column 'Order_Number' not found in the provided data.''), staging)
         else
           let existing_data = read_sql_Order_Number staging;
               new_data = extracted_data\<lparr>rows :=
                 filter (\<lambda>row. \<not> isin (cell (columns extracted_data) row ''Order_Number'') existing_data)
                   (rows extracted_data)\<rparr>;
               staging' = (if \<not> empty_df new_data then to_sql_append new_data staging else staging)
           in (Inr (to_dict_records new_data), staging'))"

section \<open>Text and numbers\<close>

definition digit_val :: "char \<Rightarrow> nat option" where
  "digit_val c = map_of (zip ''0123456789'' [0, 1, 2, 3, 4, 5, 6, 7, 8, 9]) c"

definition digit_char :: "nat \<Rightarrow> char" where
  "digit_char k = ''0123456789'' ! k"

text \<open>The value of a non-empty run of decimal digits.\<close>

fun digits_val :: "nat \<Rightarrow> string \<Rightarrow> nat option" where
  "digits_val acc [] = Some acc"
| "digits_val acc (c # cs) =
     (case digit_val c of None \<Rightarrow> None | Some k \<Rightarrow> digits_val (10 * acc + k) cs)"

definition parse_digits :: "string \<Rightarrow> nat option" where
  "parse_digits s = (if s = [] then None else digits_val 0 s)"

text \<open>\<^verbatim>\<open>str(n)\<close> for an integer.\<close>

fun show_nat :: "nat \<Rightarrow> string" where
  "show_nat n = (if n < 10 then [digit_char n] else show_nat (n div 10) @ [digit_char (n mod 10)])"

declare show_nat.simps [simp del]

definition show_int :: "int \<Rightarrow> string" where
  "show_int i = (if i < 0 then CHR ''-'' # show_nat (nat (- i)) else show_nat (nat i))"

text \<open>Zero-padded fields of \<^verbatim>\<open>strftime\<close>: \<^verbatim>\<open>%d\<close>, \<^verbatim>\<open>%m\<close> and \<^verbatim>\<open>%Y\<close>.\<close>

definition pad2 :: "nat \<Rightarrow> string" where
  "pad2 n = [digit_char (n div 10 mod 10), digit_char (n mod 10)]"

definition pad4 :: "nat \<Rightarrow> string" where
  "pad4 n = [digit_char (n div 1000 mod 10), digit_char (n div 100 mod 10),
             digit_char (n div 10 mod 10), digit_char (n mod 10)]"

text \<open>
  White space as \<^verbatim>\<open>str.strip\<close> and \<^verbatim>\<open>int()\<close> see it in ASCII: the codes 9 to 13,
  28 to 31 and 32.
\<close>

definition py_space :: "char \<Rightarrow> bool" where
  "py_space c = (let n = (of_char c :: nat) in (9 \<le> n \<and> n \<le> 13) \<or> (28 \<le> n \<and> n \<le> 32))"

definition strip :: "(char \<Rightarrow> bool) \<Rightarrow> string \<Rightarrow> string" where
  "strip sp s = rev (dropWhile sp (rev (dropWhile sp s)))"

text \<open>
  The digits of a Python integer literal after the first one: a single
  underscore may stand between two digits.
\<close>

fun py_digits :: "nat \<Rightarrow> string \<Rightarrow> nat option" where
  "py_digits acc [] = Some acc"
| "py_digits acc [c] =
     (case digit_val c of None \<Rightarrow> None | Some k \<Rightarrow> Some (10 * acc + k))"
| "py_digits acc (c # d # cs) =
     (if c = CHR ''_''
      then (case digit_val d of None \<Rightarrow> None | Some k \<Rightarrow> py_digits (10 * acc + k) cs)
      else (case digit_val c of None \<Rightarrow> None | Some k \<Rightarrow> py_digits (10 * acc + k) (d # cs)))"

definition py_nat :: "string \<Rightarrow> nat option" where
  "py_nat s = (case s of [] \<Rightarrow> None
     | c # cs \<Rightarrow> (case digit_val c of None \<Rightarrow> None | Some k \<Rightarrow> py_digits k cs))"

text \<open>\<^verbatim>\<open>int(s)\<close> on a text, base 10; \<open>None\<close> where Python raises ValueError.\<close>

definition py_int :: "string \<Rightarrow> int option" where
  "py_int s =
     (case strip py_space s of [] \<Rightarrow> None
      | c # cs \<Rightarrow>
          if c = CHR ''-'' then map_option (\<lambda>n. - int n) (py_nat cs)
          else if c = CHR ''+'' then map_option int (py_nat cs)
          else map_option int (py_nat (c # cs)))"

text \<open>A float or an integer cast to an integer: the fraction is cut off.\<close>

definition trunc :: "rat \<Rightarrow> int" where
  "trunc q = (if 0 \<le> q then \<lfloor>q\<rfloor> else \<lceil>q\<rceil>)"

section \<open>The date column\<close>

text \<open>
  \<^verbatim>\<open>pd.to_datetime(s, format='%d/%m/%Y', errors='coerce')\<close> matches a text against
  the directives of the format, the whole text: \<^verbatim>\<open>%d\<close> is one or two digits
  from 1 to 31 (or a blank and a digit), \<^verbatim>\<open>%m\<close> one or two digits from 1 to 12,
  \<^verbatim>\<open>%Y\<close> four digits. The day has to exist in the month, and the date has to lie
  within the nanosecond time stamps of pandas (1677-09-22 to 2262-04-11).
  Whatever does not pass is the null time stamp, here \<open>None\<close>; so is a null
  cell and a number (its text has no stroke).
\<close>

definition strp_d :: "string \<Rightarrow> nat option" where
  "strp_d s =
     (case s of
        [a] \<Rightarrow> (case digit_val a of None \<Rightarrow> None
                 | Some k \<Rightarrow> if 1 \<le> k then Some k else None)
      | [a, b] \<Rightarrow>
          if a = CHR '' ''
          then (case digit_val b of None \<Rightarrow> None
                | Some k \<Rightarrow> if 1 \<le> k then Some k else None)
          else (case digit_val a of None \<Rightarrow> None
                | Some x \<Rightarrow> (case digit_val b of None \<Rightarrow> None
                    | Some y \<Rightarrow> if 1 \<le> 10 * x + y \<and> 10 * x + y \<le> 31
                                then Some (10 * x + y) else None))
      | _ \<Rightarrow> None)"

definition strp_m :: "string \<Rightarrow> nat option" where
  "strp_m s =
     (case s of
        [a] \<Rightarrow> (case digit_val a of None \<Rightarrow> None
                 | Some k \<Rightarrow> if 1 \<le> k then Some k else None)
      | [a, b] \<Rightarrow>
          (case digit_val a of None \<Rightarrow> None
           | Some x \<Rightarrow> (case digit_val b of None \<Rightarrow> None
               | Some y \<Rightarrow> if 1 \<le> 10 * x + y \<and> 10 * x + y \<le> 12
                           then Some (10 * x + y) else None))
      | _ \<Rightarrow> None)"

definition strp_Y :: "string \<Rightarrow> nat option" where
  "strp_Y s = (if length s = 4 then parse_digits s else None)"

definition leap :: "nat \<Rightarrow> bool" where
  "leap y = (y mod 4 = 0 \<and> (y mod 100 \<noteq> 0 \<or> y mod 400 = 0))"

definition days_in_month :: "nat \<Rightarrow> nat \<Rightarrow> nat" where
  "days_in_month y m =
     (if m = 2 then (if leap y then 29 else 28)
      else if m = 4 \<or> m = 6 \<or> m = 9 \<or> m = 11 then 30 else 31)"

text \<open>A date is year, month, day.\<close>

type_synonym date = "nat \<times> nat \<times> nat"

definition date_le :: "date \<Rightarrow> date \<Rightarrow> bool" where
  "date_le a b =
     (case a of (y, m, d) \<Rightarrow> case b of (y', m', d') \<Rightarrow>
        y < y' \<or> (y = y' \<and> (m < m' \<or> (m = m' \<and> d \<le> d'))))"

definition valid_date :: "date \<Rightarrow> bool" where
  "valid_date a =
     (case a of (y, m, d) \<Rightarrow>
        1 \<le> m \<and> m \<le> 12 \<and> 1 \<le> d \<and> d \<le> days_in_month y m
        \<and> date_le (1677, 9, 22) a \<and> date_le a (2262, 4, 11))"

definition until_slash :: "string \<Rightarrow> string" where
  "until_slash s = takeWhile (\<lambda>c. c \<noteq> CHR ''/'') s"

definition after_slash :: "string \<Rightarrow> string option" where
  "after_slash s =
     (case dropWhile (\<lambda>c. c \<noteq> CHR ''/'') s of [] \<Rightarrow> None | _ # r \<Rightarrow> Some r)"

definition strptime_dmY :: "string \<Rightarrow> date option" where
  "strptime_dmY s =
     (case strp_d (until_slash s) of None \<Rightarrow> None
      | Some d \<Rightarrow>
     (case after_slash s of None \<Rightarrow> None
      | Some r \<Rightarrow>
     (case strp_m (until_slash r) of None \<Rightarrow> None
      | Some m \<Rightarrow>
     (case after_slash r of None \<Rightarrow> None
      | Some r' \<Rightarrow>
     (case strp_Y r' of None \<Rightarrow> None
      | Some y \<Rightarrow> if valid_date (y, m, d) then Some (y, m, d) else None)))))"

fun to_datetime :: "val \<Rightarrow> date option" where
  "to_datetime (VStr s) = strptime_dmY s"
| "to_datetime (VNum q) = None"
| "to_datetime NaN = None"

text \<open>\<^verbatim>\<open>.dt.strftime('%Y-%m-%d')\<close>; the null time stamp gives a null cell.\<close>

fun strftime_Ymd :: "date option \<Rightarrow> val" where
  "strftime_Ymd None = NaN"
| "strftime_Ymd (Some (y, m, d)) = VStr (pad4 y @ ''-'' @ pad2 m @ ''-'' @ pad2 d)"

section \<open>Numbers from text\<close>

text \<open>
  \<^verbatim>\<open>pd.to_numeric(s, errors='coerce')\<close> keeps a number and a null cell. A text
  is read as a decimal numeral: blanks, a sign, digits with an optional point
  (at least one digit), an optional exponent, blanks; any other text, the
  empty one too, becomes null. The texts that name an infinite float are
  outside the model.
\<close>

definition c_space :: "char \<Rightarrow> bool" where
  "c_space c = (let n = (of_char c :: nat) in (9 \<le> n \<and> n \<le> 13) \<or> n = 32)"

definition is_digit :: "char \<Rightarrow> bool" where
  "is_digit c = (digit_val c \<noteq> None)"

definition digits_nat :: "string \<Rightarrow> nat" where
  "digits_nat s = foldl (\<lambda>a c. 10 * a + (case digit_val c of None \<Rightarrow> 0 | Some k \<Rightarrow> k)) 0 s"

definition take_sign :: "string \<Rightarrow> bool \<times> string" where
  "take_sign s =
     (case s of [] \<Rightarrow> (False, [])
      | c # r \<Rightarrow> if c = CHR ''-'' then (True, r)
                 else if c = CHR ''+'' then (False, r) else (False, s))"

definition take_fraction :: "string \<Rightarrow> string \<times> string" where
  "take_fraction s =
     (case s of [] \<Rightarrow> ([], [])
      | c # r \<Rightarrow> if c = CHR ''.'' then (takeWhile is_digit r, dropWhile is_digit r)
                 else ([], s))"

text \<open>An exponent mark with no digit after it is not part of the numeral.\<close>

definition take_exponent :: "string \<Rightarrow> int \<times> string" where
  "take_exponent s =
     (case s of [] \<Rightarrow> (0, [])
      | c # r \<Rightarrow>
          if c = CHR ''e'' \<or> c = CHR ''E''
          then (case take_sign r of (neg, r') \<Rightarrow>
                  let ds = takeWhile is_digit r'
                  in if ds = [] then (0, s)
                     else ((if neg then - int (digits_nat ds) else int (digits_nat ds)),
                           dropWhile is_digit r'))
          else (0, s))"

definition scale10 :: "rat \<Rightarrow> int \<Rightarrow> rat" where
  "scale10 q e = (if 0 \<le> e then q * 10 ^ nat e else q / 10 ^ nat (- e))"

definition xstrtod :: "string \<Rightarrow> rat option" where
  "xstrtod s =
     (case take_sign (dropWhile c_space s) of (neg, t1) \<Rightarrow>
        let ip = takeWhile is_digit t1
        in case take_fraction (dropWhile is_digit t1) of (fp, t3) \<Rightarrow>
          if ip = [] \<and> fp = [] then None
          else case take_exponent t3 of (ex, t4) \<Rightarrow>
            if dropWhile c_space t4 \<noteq> [] then None
            else let q = scale10 (of_nat (digits_nat (ip @ fp))) (ex - int (length fp))
                 in Some (if neg then - q else q))"

fun to_numeric :: "val \<Rightarrow> val" where
  "to_numeric (VNum q) = VNum q"
| "to_numeric NaN = NaN"
| "to_numeric (VStr s) = (case xstrtod s of None \<Rightarrow> NaN | Some q \<Rightarrow> VNum q)"

section \<open>The order number\<close>

text \<open>
  \<^verbatim>\<open>.astype(int)\<close> on a cell: a number loses its fraction, a text goes through
  \<^verbatim>\<open>int()\<close>, a null cell cannot be cast. One failing cell raises for the whole
  column. (The messages are shortened.)
\<close>

fun astype_int :: "val \<Rightarrow> error + int" where
  "astype_int (VNum q) = Inr (trunc q)"
| "astype_int (VStr s) =
     (case py_int s of None \<Rightarrow> Inl (ValueError ''invalid literal for int() with base 10'')
      | Some i \<Rightarrow> Inr i)"
| "astype_int NaN = Inl (ValueError ''cannot convert float NaN to integer'')"

fun collect :: "(error + 'a) list \<Rightarrow> error + 'a list" where
  "collect [] = Inr []"
| "collect (Inl e # xs) = Inl e"
| "collect (Inr x # xs) = (case collect xs of Inl e \<Rightarrow> Inl e | Inr ys \<Rightarrow> Inr (x # ys))"

definition astype_str :: "int \<Rightarrow> val" where
  "astype_str i = VStr (show_int i)"

section \<open>Cleaning: \<^verbatim>\<open>transform_data\<close>\<close>

text \<open>\<^verbatim>\<open>df.drop_duplicates()\<close>: of equal rows the first one stays.\<close>

definition drop_duplicates :: "dataframe \<Rightarrow> dataframe" where
  "drop_duplicates df = df\<lparr>rows := keep_first [] (rows df)\<rparr>"

text \<open>
  \<^verbatim>\<open>df[c] = values\<close> for a column that the frame has (each use below comes
  after a check that it has): the cell of every row is replaced.
\<close>

definition set_cell :: "string list \<Rightarrow> val list \<Rightarrow> string \<Rightarrow> val \<Rightarrow> val list" where
  "set_cell cols row c v = map (\<lambda>(k, x). if k = c then v else x) (zip cols row)"

definition assign_col :: "string \<Rightarrow> val list \<Rightarrow> dataframe \<Rightarrow> dataframe" where
  "assign_col c vs df =
     df\<lparr>rows := map (\<lambda>(row, v). set_cell (columns df) row c v) (zip (rows df) vs)\<rparr>"

definition rename_columns :: "(string \<times> string) list \<Rightarrow> dataframe \<Rightarrow> dataframe" where
  "rename_columns m df =
     df\<lparr>columns := map (\<lambda>c. case map_of m c of None \<Rightarrow> c | Some c' \<Rightarrow> c') (columns df)\<rparr>"

text \<open>
  \<^verbatim>\<open>df.dropna(subset=cs)\<close>: a KeyError when a column of the subset is not in the
  frame; otherwise the rows with no null cell in the subset stay.
\<close>

definition dropna :: "string list \<Rightarrow> dataframe \<Rightarrow> error + dataframe" where
  "dropna names df =
     (case filter (\<lambda>c. c \<notin> set (columns df)) names of
        c # cs \<Rightarrow> Inl (KeyError (concat (c # cs)))
      | [] \<Rightarrow> Inr (df\<lparr>rows :=
          filter (\<lambda>row. \<forall>c \<in> set names. cell (columns df) row c \<noteq> NaN) (rows df)\<rparr>))"

text \<open>\<^verbatim>\<open>df.fillna(defaults)\<close>: a null cell of a listed column takes its default.\<close>

definition fillna :: "(string \<times> val) list \<Rightarrow> dataframe \<Rightarrow> dataframe" where
  "fillna defaults df =
     df\<lparr>rows := map (\<lambda>row. map (\<lambda>(k, x).
         if x = NaN then (case map_of defaults k of None \<Rightarrow> x | Some v \<Rightarrow> v) else x)
       (zip (columns df) row)) (rows df)\<rparr>"

definition fill_values :: "(string \<times> val) list" where
  "fill_values =
     [(''State_Code'', VStr ''Unknown''),
      (''Customer_Name'', VStr ''Unknown''),
      (''Status'', VStr ''Unknown''),
      (''Product'', VStr ''Unknown''),
      (''Category'', VStr ''Unknown''),
      (''Brand'', VStr ''Unknown''),
      (''Quantity'', VNum 0),
      (''Total_Cost'', VNum 0),
      (''Total_Sales'', VNum 0),
      (''Assigned_Supervisor'', VStr ''Unknown'')]"

text \<open>
  The stage returns what it pushes for the next task: \<open>Inr None\<close> when it
  returns early and pushes nothing, \<open>Inr (Some records)\<close> when it pushes the
  cleaned records, \<open>Inl e\<close> when it raises.
\<close>

definition transform_data :: "pydict list \<Rightarrow> error + pydict list option" where
  "transform_data xcom_staged =
     (let staged_data = DataFrame xcom_staged
      in if ''Order_Date'' \<notin> set (columns staged_data) then Inr None
         else
           let df1 = drop_duplicates staged_data;
               df2 = assign_col ''Order_Date''
                       (map (\<lambda>v. strftime_Ymd (to_datetime v)) (col df1 ''Order_Date'')) df1;
               df3 = rename_columns [(''Assigned Supervisor'', ''Assigned_Supervisor'')] df2
           in case dropna [''Cost'', ''Sales''] df3 of
                Inl e \<Rightarrow> Inl e
              | Inr df4 \<Rightarrow>
                  let df5 = assign_col ''Cost'' (map to_numeric (col df4 ''Cost'')) df4;
                      df6 = assign_col ''Sales'' (map to_numeric (col df5 ''Sales'')) df5
                  in if ''Order_Number'' \<notin> set (columns df6)
                     then Inl (KeyError ''Order_Number'')
                     else (case collect (map astype_int (col df6 ''Order_Number'')) of
                            Inl e \<Rightarrow> Inl e
                          | Inr ints \<Rightarrow>
                              let df7 = assign_col ''Order_Number'' (map astype_str ints) df6;
                                  df8 = fillna fill_values df7
                              in Inr (Some (to_dict_records df8))))"

section \<open>Loading: \<^verbatim>\<open>load_transformed_data_to_postgresql\<close>\<close>

text \<open>
  The destination table \<^verbatim>\<open>portofolio.online_order\<close> is the list of its rows.
  One execution of the statement binds the fourteen named parameters from
  the dictionary of the row (a missing one is an error of the statement, a
  key that is no parameter is not used) and inserts the row unless a row
  with an equal \<^verbatim>\<open>Order_Number\<close> is there: \<^verbatim>\<open>ON CONFLICT (Order_Number) DO NOTHING\<close>.
  Each execution is committed on its own; the types of the table's columns
  are not in the source, a value is stored as it is bound.
\<close>

definition upsert_params :: "string list" where
  "upsert_params =
     [''Order_Number'', ''State_Code'', ''Customer_Name'', ''Order_Date'', ''Status'',
      ''Product'', ''Category'', ''Brand'', ''Cost'', ''Sales'', ''Quantity'',
      ''Total_Cost'', ''Total_Sales'', ''Assigned_Supervisor'']"

definition bound_row :: "pydict \<Rightarrow> pydict" where
  "bound_row d = map (\<lambda>c. (c, dict_get d c)) upsert_params"

definition bind_params :: "pydict \<Rightarrow> error + pydict" where
  "bind_params d =
     (case filter (\<lambda>c. map_of d c = None) upsert_params of
        c # cs \<Rightarrow> Inl (StatementError c)
      | [] \<Rightarrow> Inr (bound_row d))"

definition order_numbers :: "table \<Rightarrow> val list" where
  "order_numbers t = map (\<lambda>r. dict_get r ''Order_Number'') t"

definition execute_upsert :: "pydict \<Rightarrow> table \<Rightarrow> error + table" where
  "execute_upsert d t =
     (case bind_params d of
        Inl e \<Rightarrow> Inl e
      | Inr r \<Rightarrow> if dict_get r ''Order_Number'' \<in> set (order_numbers t) then Inr t
                 else Inr (t @ [r]))"

text \<open>The loop over the rows; the rows written before an error stay.\<close>

fun upsert_rows :: "pydict list \<Rightarrow> table \<Rightarrow> (error + unit) \<times> table" where
  "upsert_rows [] t = (Inr (), t)"
| "upsert_rows (d # ds) t =
     (case execute_upsert d t of
        Inl e \<Rightarrow> (Inl e, t)
      | Inr t' \<Rightarrow> upsert_rows ds t')"

text \<open>
  \<^verbatim>\<open>iterrows\<close> with \<^verbatim>\<open>row.to_dict()\<close> gives the dictionaries of the rows. The
  stage pulls what the cleaning pushed: nothing (\<open>None\<close>) after its early
  return, and the frame of nothing has no row.
\<close>

definition load_transformed_data_to_postgresql ::
  "pydict list option \<Rightarrow> table \<Rightarrow> (error + unit) \<times> table" where
  "load_transformed_data_to_postgresql xcom_transformed dest =
     (let transformed_data = DataFrame_opt xcom_transformed
      in upsert_rows (to_dict_records transformed_data) dest)"

section \<open>The DAG\<close>

text \<open>
  \<^verbatim>\<open>download >> extract >> load_mysql >> transform >> load_postgresql\<close>: a task
  runs when the one before it has succeeded. A task that raises is run once
  more (\<^verbatim>\<open>'retries': 1\<close>) on the stores as it left them; when it raises again
  the run stops there. The download and the reading of the CSV file are
  outside: a run is given the records that \<^verbatim>\<open>extract_data\<close> pushes, which the
  source file determines.
\<close>

record stores =
  staging :: table
  destination :: table

definition with_retry :: "('s \<Rightarrow> (error + 'a) \<times> 's) \<Rightarrow> 's \<Rightarrow> (error + 'a) \<times> 's" where
  "with_retry task s = (case task s of (Inl e, s') \<Rightarrow> task s' | (Inr x, s') \<Rightarrow> (Inr x, s'))"

definition run_dag :: "pydict list \<Rightarrow> stores \<Rightarrow> stores" where
  "run_dag extracted s =
     (case with_retry (load_data_to_mysql extracted) (staging s) of
        (Inl e, st) \<Rightarrow> s\<lparr>staging := st\<rparr>
      | (Inr staged, st) \<Rightarrow>
          (case with_retry (\<lambda>u. (transform_data staged, u)) () of
             (Inl e, u) \<Rightarrow> s\<lparr>staging := st\<rparr>
           | (Inr transformed, u) \<Rightarrow>
               (case with_retry (load_transformed_data_to_postgresql transformed) (destination s) of
                  (r, dest) \<Rightarrow> \<lparr>staging = st, destination = dest\<rparr>)))"

section \<open>The cleaned record, cell by cell\<close>

text \<open>
  What the steps of \<^verbatim>\<open>transform_data\<close> do to one cell of a row that is kept,
  written as one function of the column name and the staged value; the
  lemma \<open>transform_data_records\<close> below shows that the stage computes it.
\<close>

definition rename_key :: "string \<Rightarrow> string" where
  "rename_key c = (if c = ''Assigned Supervisor'' then ''Assigned_Supervisor'' else c)"

definition canon_cell :: "val \<Rightarrow> val" where
  "canon_cell v = (case astype_int v of Inl e \<Rightarrow> v | Inr i \<Rightarrow> astype_str i)"

definition fill_cell :: "string \<Rightarrow> val \<Rightarrow> val" where
  "fill_cell k x = (if x = NaN then (case map_of fill_values k of None \<Rightarrow> x | Some v \<Rightarrow> v) else x)"

definition convert_cell :: "string \<Rightarrow> val \<Rightarrow> val" where
  "convert_cell c v =
     (if c = ''Order_Date'' then strftime_Ymd (to_datetime v)
      else if c = ''Cost'' \<or> c = ''Sales'' then to_numeric v
      else if c = ''Order_Number'' then canon_cell v
      else v)"

definition clean_cell :: "string \<Rightarrow> val \<Rightarrow> val" where
  "clean_cell c v = fill_cell (rename_key c) (convert_cell c v)"

definition clean_record :: "string list \<Rightarrow> pydict \<Rightarrow> pydict" where
  "clean_record cols r = dict_of (map (\<lambda>c. (rename_key c, clean_cell c (dict_get r c))) cols)"

text \<open>The rows that are left after \<^verbatim>\<open>drop_duplicates\<close> and \<^verbatim>\<open>dropna\<close>.\<close>

definition kept_rows :: "pydict list \<Rightarrow> val list list" where
  "kept_rows recs =
     (let df = DataFrame recs
      in filter (\<lambda>row. cell (columns df) row ''Cost'' \<noteq> NaN \<and> cell (columns df) row ''Sales'' \<noteq> NaN)
           (keep_first [] (rows df)))"

text \<open>A function of name and value applied to the cells of a row.\<close>

definition map_cells :: "(string \<Rightarrow> val \<Rightarrow> val) \<Rightarrow> string list \<Rightarrow> val list \<Rightarrow> val list" where
  "map_cells F cols row = map (\<lambda>(k, x). F k x) (zip cols row)"

section \<open>Frames and dictionaries\<close>

lemma set_keep_first: "set (keep_first seen xs) = set xs - set seen"
  by (induction xs arbitrary: seen) auto

lemma distinct_keep_first: "distinct (keep_first seen xs)"
  by (induction xs arbitrary: seen) (auto simp: set_keep_first)





lemma columns_DataFrame: "set (columns (DataFrame recs)) = (\<Union>r \<in> set recs. fst ` set r)"
  by (auto simp: DataFrame_def Let_def set_keep_first)

lemma distinct_columns_DataFrame: "distinct (columns (DataFrame recs))"
  by (simp add: DataFrame_def Let_def distinct_keep_first)

lemma length_rows_DataFrame:
  "row \<in> set (rows (DataFrame recs)) \<Longrightarrow> length row = length (columns (DataFrame recs))"
  by (auto simp: DataFrame_def Let_def)

lemma dict_set_fresh: "k \<notin> fst ` set d \<Longrightarrow> dict_set d k v = d @ [(k, v)]"
  by (induction d) auto

lemma foldl_dict_set_distinct:
  "distinct (map fst (d @ kvs)) \<Longrightarrow> foldl (\<lambda>d (k, v). dict_set d k v) d kvs = d @ kvs"
proof (induction kvs arbitrary: d)
  case Nil
  then show ?case by simp
next
  case (Cons p kvs)
  obtain k v where p: "p = (k, v)" by (cases p)
  have fresh: "k \<notin> fst ` set d" using Cons.prems p by auto
  have "distinct (map fst ((d @ [(k, v)]) @ kvs))" using Cons.prems p by auto
  then have "foldl (\<lambda>d (k, v). dict_set d k v) (d @ [(k, v)]) kvs = (d @ [(k, v)]) @ kvs"
    by (rule Cons.IH)
  then show ?case using fresh p by (simp add: dict_set_fresh)
qed

lemma dict_of_distinct: "distinct (map fst kvs) \<Longrightarrow> dict_of kvs = kvs"
  using foldl_dict_set_distinct [of "[]" kvs] by (simp add: dict_of_def)

lemma dict_of_zip: "distinct cols \<Longrightarrow> dict_of (zip cols row) = zip cols row"
  by (rule dict_of_distinct) (simp add: map_fst_zip_take)

section \<open>Properties of the staging stage\<close>

lemma cell_map: "cell cols (map f cols) c = (if c \<in> set cols then f c else NaN)"
  by (simp add: cell_def dict_get_def map_of_zip_map)

lemma dict_get_absent: "c \<notin> fst ` set d \<Longrightarrow> dict_get d c = NaN"
proof -
  assume "c \<notin> fst ` set d"
  then have "map_of d c = None" by (simp add: map_of_eq_None_iff)
  then show ?thesis by (simp add: dict_get_def)
qed

lemma cell_padded:
  "fst ` set d \<subseteq> set cols \<Longrightarrow> cell cols (map (dict_get d) cols) c = dict_get d c"
proof (cases "c \<in> set cols")
  case True
  then show ?thesis by (simp add: cell_map)
next
  case False
  assume "fst ` set d \<subseteq> set cols"
  then have "c \<notin> fst ` set d" using False by auto
  then show ?thesis using False by (simp add: cell_map dict_get_absent)
qed

lemma cell_DataFrame:
  assumes "d \<in> set recs"
  shows "cell (columns (DataFrame recs)) (map (dict_get d) (columns (DataFrame recs))) c
           = dict_get d c"
proof (rule cell_padded)
  show "fst ` set d \<subseteq> set (columns (DataFrame recs))"
    using assms by (auto simp: columns_DataFrame)
qed

lemma rows_DataFrame:
  "rows (DataFrame recs) = map (\<lambda>d. map (dict_get d) (columns (DataFrame recs))) recs"
  by (simp add: DataFrame_def Let_def)

lemma to_dict_records_distinct:
  "distinct (columns df) \<Longrightarrow> to_dict_records df = map (zip (columns df)) (rows df)"
  by (simp add: to_dict_records_def dict_of_zip)

lemma dict_get_zip: "dict_get (zip cols row) c = cell cols row c"
  by (simp add: cell_def)





lemma load_data_to_mysql_missing:
  assumes "''Order_Number'' \<notin> set (columns (DataFrame recs))"
  shows "load_data_to_mysql recs st =
           (Inl (ValueError ''Column 'Order_Number' not found in the provided data.''), st)"
  using assms by (simp add: load_data_to_mysql_def Let_def)

lemma load_data_to_mysql_present:
  assumes "''Order_Number'' \<in> set (columns (DataFrame recs))"
  shows "load_data_to_mysql recs st =
           (let batch = filter (\<lambda>r. dict_get r ''Order_Number'' \<notin> set (read_sql_Order_Number st))
                          (to_dict_records (DataFrame recs))
            in (Inr batch, st @ batch))"
proof -
  let ?df = "DataFrame recs"
  let ?P = "\<lambda>r. dict_get r ''Order_Number'' \<notin> set (read_sql_Order_Number st)"
  let ?new = "?df\<lparr>rows := filter (\<lambda>row. \<not> isin (cell (columns ?df) row ''Order_Number'')
                 (read_sql_Order_Number st)) (rows ?df)\<rparr>"
  have d: "distinct (columns ?df)" by (rule distinct_columns_DataFrame)
  have "to_dict_records ?new
          = map (zip (columns ?df)) (filter (\<lambda>row. ?P (zip (columns ?df) row)) (rows ?df))"
    using d by (simp add: to_dict_records_distinct isin_def dict_get_zip)
  also have "\<dots> = filter ?P (map (zip (columns ?df)) (rows ?df))"
    by (simp add: filter_map o_def)
  also have "\<dots> = filter ?P (to_dict_records ?df)"
    using d by (simp add: to_dict_records_distinct)
  finally have new: "to_dict_records ?new = filter ?P (to_dict_records ?df)" .
  have e: "empty_df ?new \<Longrightarrow> to_dict_records ?new = []"
    using assms by (auto simp: empty_df_def to_dict_records_def)
  show ?thesis
    using assms e new [symmetric]
    by (simp add: load_data_to_mysql_def Let_def to_sql_append_def)
qed

text \<open>
  C6, as the code has it. The stage looks for the column in the frame, and
  the frame has a column as soon as one record has the field. When no record
  has an \<^verbatim>\<open>Order_Number\<close> field (the empty batch included), the stage raises
  the ValueError of its check and the staging table is as it was; a second
  try does the same.
\<close>

theorem load_data_to_mysql_no_order_number:
  assumes "\<forall>r \<in> set recs. ''Order_Number'' \<notin> fst ` set r"
  shows "load_data_to_mysql recs st =
           (Inl (ValueError ''Column 'Order_Number' not found in the provided data.''), st)
         \<and> with_retry (load_data_to_mysql recs) st =
           (Inl (ValueError ''Column 'Order_Number' not found in the provided data.''), st)"
proof -
  have "''Order_Number'' \<notin> set (columns (DataFrame recs))"
    using assms by (auto simp: columns_DataFrame)
  then have "load_data_to_mysql recs st =
      (Inl (ValueError ''Column 'Order_Number' not found in the provided data.''), st)"
    by (rule load_data_to_mysql_missing)
  then show ?thesis by (simp add: with_retry_def)
qed

theorem load_data_to_mysql_no_order_number_witness:
  "load_data_to_mysql [[(''Cost'', VNum 1)], [(''Sales'', VNum 2)]] [[(''Order_Number'', VNum 7)]] =
     (Inl (ValueError ''Column 'Order_Number' not found in the provided data.''),
      [[(''Order_Number'', VNum 7)]])"
  using load_data_to_mysql_no_order_number
    [of "[[(''Cost'', VNum 1)], [(''Sales'', VNum 2)]]" "[[(''Order_Number'', VNum 7)]]"]
  by simp

text \<open>
  C6 as stated fails: of two records only the second lacks the field; the
  stage does not raise and stages both, the missing number read as null.
\<close>

theorem load_data_to_mysql_some_lacking_counterexample:
  "load_data_to_mysql [[(''Order_Number'', VNum 1001)], [(''Cost'', VNum 5)]] [] =
     (Inr [[(''Order_Number'', VNum 1001), (''Cost'', NaN)],
           [(''Order_Number'', NaN), (''Cost'', VNum 5)]],
      [[(''Order_Number'', VNum 1001), (''Cost'', NaN)],
       [(''Order_Number'', NaN), (''Cost'', VNum 5)]])"
  by code_simp




section \<open>Rows under the steps of the cleaning\<close>

lemma set_cell_map_cells: "set_cell cols row c v = map_cells (\<lambda>k x. if k = c then v else x) cols row"
  by (simp add: set_cell_def map_cells_def)

lemma zip_map_cells:
  "zip cols (map_cells F cols row) = map (\<lambda>(k, x). (k, F k x)) (zip cols row)"
proof (induction cols arbitrary: row)
  case Nil
  then show ?case by (simp add: map_cells_def)
next
  case (Cons c cols)
  then show ?case by (cases row) (auto simp: map_cells_def)
qed

lemma map_cells_comp:
  "map_cells G cols (map_cells F cols row) = map_cells (\<lambda>k x. G k (F k x)) cols row"
proof -
  have "map_cells G cols (map_cells F cols row)
          = map (\<lambda>(k, x). G k x) (zip cols (map_cells F cols row))"
    by (simp add: map_cells_def)
  also have "\<dots> = map (\<lambda>(k, x). G k x) (map (\<lambda>(k, x). (k, F k x)) (zip cols row))"
    by (simp only: zip_map_cells)
  also have "\<dots> = map_cells (\<lambda>k x. G k (F k x)) cols row"
    by (simp add: map_cells_def split_def)
  finally show ?thesis .
qed

lemma map_of_zip_map_cells:
  "map_of (zip cols (map_cells F cols row)) c = map_option (F c) (map_of (zip cols row) c)"
proof (induction cols arbitrary: row)
  case Nil
  then show ?case by (simp add: map_cells_def)
next
  case (Cons k cols)
  show ?case
  proof (cases row)
    case Nil
    then show ?thesis by (simp add: map_cells_def)
  next
    case (Cons x xs)
    have "map_cells F (k # cols) (x # xs) = F k x # map_cells F cols xs"
      by (simp add: map_cells_def)
    then show ?thesis using Cons Cons.IH [of xs] by simp
  qed
qed

lemma cell_map_cells:
  "cell cols (map_cells F cols row) c =
     (case map_of (zip cols row) c of None \<Rightarrow> NaN | Some x \<Rightarrow> F c x)"
proof (cases "map_of (zip cols row) c")
  case None
  then show ?thesis by (simp add: cell_def dict_get_def map_of_zip_map_cells)
next
  case (Some x)
  then show ?thesis by (simp add: cell_def dict_get_def map_of_zip_map_cells)
qed

lemma cell_map_cells_same:
  "F c = (\<lambda>x. x) \<Longrightarrow> cell cols (map_cells F cols row) c = cell cols row c"
proof (cases "map_of (zip cols row) c")
  case None
  then show ?thesis by (simp add: cell_map_cells) (simp add: cell_def dict_get_def)
next
  case (Some x)
  assume "F c = (\<lambda>x. x)"
  then show ?thesis using Some by (simp add: cell_map_cells) (simp add: cell_def dict_get_def)
qed

lemma zip_cell:
  assumes "distinct cols" and "(k, x) \<in> set (zip cols row)"
  shows "cell cols row k = x"
proof -
  have "distinct (map fst (zip cols row))"
    using assms(1) by (simp add: map_fst_zip_take)
  then have "map_of (zip cols row) k = Some x"
    using assms(2) by (rule map_of_is_SomeI)
  then show ?thesis by (simp add: cell_def dict_get_def)
qed

lemma set_cell_of_cell:
  assumes "distinct cols"
  shows "set_cell cols row c (f (cell cols row c))
           = map_cells (\<lambda>k x. if k = c then f x else x) cols row"
proof -
  have "map (\<lambda>(k, x). if k = c then f (cell cols row c) else x) (zip cols row)
          = map (\<lambda>(k, x). if k = c then f x else x) (zip cols row)"
  proof (rule map_cong)
    fix p assume p: "p \<in> set (zip cols row)"
    obtain k x where kx: "p = (k, x)" by (cases p)
    have "k = c \<Longrightarrow> cell cols row c = x"
      using zip_cell [OF assms, of k x row] p kx by simp
    then show "(case p of (k, x) \<Rightarrow> if k = c then f (cell cols row c) else x)
                 = (case p of (k, x) \<Rightarrow> if k = c then f x else x)"
      using kx by auto
  qed simp
  then show ?thesis by (simp add: set_cell_def map_cells_def)
qed

lemma zip_map_self: "zip xs (map g xs) = map (\<lambda>x. (x, g x)) xs"
  by (induction xs) auto

lemma assign_col_map:
  "assign_col c (map f (col df c)) df =
     df\<lparr>rows := map (\<lambda>row. set_cell (columns df) row c (f (cell (columns df) row c))) (rows df)\<rparr>"
proof -
  have "zip (rows df) (map (\<lambda>row. f (cell (columns df) row c)) (rows df))
          = map (\<lambda>row. (row, f (cell (columns df) row c))) (rows df)"
    by (rule zip_map_self)
  then show ?thesis by (simp add: assign_col_def col_def o_def)
qed



text \<open>The renaming touches no column that the later steps name.\<close>


lemma rename_key_eq:
  "c \<noteq> ''Assigned_Supervisor'' \<Longrightarrow> c \<noteq> ''Assigned Supervisor'' \<Longrightarrow> rename_key k = c \<longleftrightarrow> k = c"
  by (auto simp: rename_key_def)

lemma zip_map_keys: "zip (map g cols) row = map (\<lambda>(k, x). (g k, x)) (zip cols row)"
proof (induction cols arbitrary: row)
  case Nil
  then show ?case by simp
next
  case (Cons c cols)
  then show ?case by (cases row) auto
qed

lemma map_of_renamed:
  assumes "\<And>k. g k = c \<longleftrightarrow> k = c"
  shows "map_of (map (\<lambda>(k, x). (g k, x)) kvs) c = map_of kvs c"
proof (induction kvs)
  case Nil
  then show ?case by simp
next
  case (Cons p kvs)
  obtain k x where p: "p = (k, x)" by (cases p)
  show ?case
  proof (cases "k = c")
    case True
    then have "g k = c" using assms [of k] by simp
    then show ?thesis using p True by simp
  next
    case False
    then have "g k \<noteq> c" using assms [of k] by simp
    then show ?thesis using p False Cons.IH by simp
  qed
qed

lemma cell_renamed:
  assumes "\<And>k. g k = c \<longleftrightarrow> k = c"
  shows "cell (map g cols) row c = cell cols row c"
proof -
  have "map_of (map (\<lambda>(k, x). (g k, x)) (zip cols row)) c = map_of (zip cols row) c"
    by (rule map_of_renamed) (rule assms)
  then show ?thesis by (simp add: cell_def dict_get_def zip_map_keys)
qed

lemma set_cell_renamed:
  assumes "\<And>k. g k = c \<longleftrightarrow> k = c"
  shows "set_cell (map g cols) row c v = set_cell cols row c v"
proof -
  have "map (\<lambda>(k, x). if k = c then v else x) (map (\<lambda>(k, x). (g k, x)) (zip cols row))
          = map (\<lambda>(k, x). if k = c then v else x) (zip cols row)"
  proof (simp only: map_map, rule map_cong)
    fix p assume "p \<in> set (zip cols row)"
    obtain k x where p: "p = (k, x)" by (cases p)
    have "(g k = c) = (k = c)" by (rule assms)
    then show "((\<lambda>(k, x). if k = c then v else x) \<circ> (\<lambda>(k, x). (g k, x))) p
                 = (case p of (k, x) \<Rightarrow> if k = c then v else x)"
      using p by simp
  qed simp
  then show ?thesis by (simp only: set_cell_def zip_map_keys)
qed

section \<open>The cleaning stage, row by row\<close>

lemma assign_col_cells:
  assumes "columns df = map g cols" and "distinct cols" and "\<And>k. g k = c \<longleftrightarrow> k = c"
  shows "assign_col c (map f (col df c)) df =
           df\<lparr>rows := map (map_cells (\<lambda>k x. if k = c then f x else x) cols) (rows df)\<rparr>"
proof -
  have "\<And>row. set_cell (columns df) row c (f (cell (columns df) row c))
                = map_cells (\<lambda>k x. if k = c then f x else x) cols row"
  proof -
    fix row
    have "set_cell (map g cols) row c (f (cell (map g cols) row c))
            = set_cell cols row c (f (cell cols row c))"
      using assms(3) by (simp only: set_cell_renamed cell_renamed)
    then show "set_cell (columns df) row c (f (cell (columns df) row c))
                = map_cells (\<lambda>k x. if k = c then f x else x) cols row"
      using assms(1,2) by (simp only: set_cell_of_cell)
  qed
  then show ?thesis by (simp only: assign_col_map)
qed

lemma map_cells_renamed: "map_cells F (map g cols) row = map_cells (\<lambda>k. F (g k)) cols row"
  by (simp add: map_cells_def zip_map_keys split_def o_def)

lemma collect_map_Inr:
  "collect (map f xs) = Inr ys \<Longrightarrow> ys = map (\<lambda>x. projr (f x)) xs \<and> (\<forall>x \<in> set xs. f x = Inr (projr (f x)))"
proof (induction xs arbitrary: ys)
  case Nil
  then show ?case by simp
next
  case (Cons x xs)
  show ?case
  proof (cases "f x")
    case (Inl e)
    then show ?thesis using Cons.prems by simp
  next
    case (Inr y)
    show ?thesis
    proof (cases "collect (map f xs)")
      case (Inl e)
      then show ?thesis using Cons.prems Inr by simp
    next
      case inner: (Inr zs)
      then have "zs = map (\<lambda>x. projr (f x)) xs \<and> (\<forall>x \<in> set xs. f x = Inr (projr (f x)))"
        by (rule Cons.IH)
      then show ?thesis using Cons.prems Inr inner by auto
    qed
  qed
qed



lemma in_renamed_columns:
  assumes "c \<noteq> ''Assigned_Supervisor''" and "c \<noteq> ''Assigned Supervisor''"
  shows "c \<in> set (map rename_key cols) \<longleftrightarrow> c \<in> set cols"
proof
  assume "c \<in> set (map rename_key cols)"
  then obtain k where k: "k \<in> set cols" and kc: "rename_key k = c" by auto
  have "rename_key k = c \<longleftrightarrow> k = c" using assms by (rule rename_key_eq)
  then have "k = c" using kc by blast
  then show "c \<in> set cols" using k by blast
next
  assume c: "c \<in> set cols"
  have "rename_key c = c \<longleftrightarrow> c = c" using assms by (rule rename_key_eq)
  then have "rename_key c = c" by blast
  then have "c = rename_key c" by (rule sym)
  then have "c \<in> rename_key ` set cols" using c by (rule image_eqI)
  then show "c \<in> set (map rename_key cols)" by simp
qed

lemma rename_columns_key:
  "rename_columns [(''Assigned Supervisor'', ''Assigned_Supervisor'')] df
     = df\<lparr>columns := map rename_key (columns df)\<rparr>"
proof -
  have "\<And>c. (case map_of [(''Assigned Supervisor'', ''Assigned_Supervisor'')] c of
               None \<Rightarrow> c | Some c' \<Rightarrow> c') = rename_key c"
    by (simp add: rename_key_def)
  then show ?thesis by (simp add: rename_columns_def)
qed

lemma rename_key_named:
  "rename_key k = ''Cost'' \<longleftrightarrow> k = ''Cost''"
  "rename_key k = ''Sales'' \<longleftrightarrow> k = ''Sales''"
  "rename_key k = ''Order_Number'' \<longleftrightarrow> k = ''Order_Number''"
  "rename_key k = ''Order_Date'' \<longleftrightarrow> k = ''Order_Date''"
  by (rule rename_key_eq, simp, simp)+

lemma named_in_renamed_columns:
  "''Cost'' \<in> set (map rename_key cols) \<longleftrightarrow> ''Cost'' \<in> set cols"
  "''Sales'' \<in> set (map rename_key cols) \<longleftrightarrow> ''Sales'' \<in> set cols"
  "''Order_Number'' \<in> set (map rename_key cols) \<longleftrightarrow> ''Order_Number'' \<in> set cols"
  by (rule in_renamed_columns, simp, simp)+

lemma step_assign:
  assumes "distinct cols" and "\<And>k. g k = c \<longleftrightarrow> k = c"
  shows "assign_col c (map f (col \<lparr>columns = map g cols, rows = R\<rparr> c)) \<lparr>columns = map g cols, rows = R\<rparr>
           = \<lparr>columns = map g cols, rows = map (map_cells (\<lambda>k x. if k = c then f x else x) cols) R\<rparr>"
proof -
  have "columns \<lparr>columns = map g cols, rows = R\<rparr> = map g cols" by simp
  then have "assign_col c (map f (col \<lparr>columns = map g cols, rows = R\<rparr> c)) \<lparr>columns = map g cols, rows = R\<rparr>
      = \<lparr>columns = map g cols, rows = R\<rparr>\<lparr>rows := map (map_cells (\<lambda>k x. if k = c then f x else x) cols)
            (rows \<lparr>columns = map g cols, rows = R\<rparr>)\<rparr>"
    using assms by (rule assign_col_cells)
  then show ?thesis by simp
qed

lemma step_dropna:
  assumes "''Cost'' \<in> set cols" and "''Sales'' \<in> set cols"
    and "\<And>row. row \<in> set R \<Longrightarrow> cell (map rename_key cols) (G row) ''Cost'' = cell cols row ''Cost''"
    and "\<And>row. row \<in> set R \<Longrightarrow> cell (map rename_key cols) (G row) ''Sales'' = cell cols row ''Sales''"
  shows "dropna [''Cost'', ''Sales''] \<lparr>columns = map rename_key cols, rows = map G R\<rparr>
           = Inr \<lparr>columns = map rename_key cols,
                  rows = map G (filter (\<lambda>row. cell cols row ''Cost'' \<noteq> NaN \<and> cell cols row ''Sales'' \<noteq> NaN) R)\<rparr>"
proof -
  have c: "''Cost'' \<in> set (map rename_key cols)"
    using assms(1) by (simp only: named_in_renamed_columns)
  have s: "''Sales'' \<in> set (map rename_key cols)"
    using assms(2) by (simp only: named_in_renamed_columns)
  have none: "filter (\<lambda>c. c \<notin> set (map rename_key cols)) [''Cost'', ''Sales''] = []"
    using c s by simp
  have "filter (\<lambda>row. \<forall>c \<in> set [''Cost'', ''Sales'']. cell (map rename_key cols) row c \<noteq> NaN) (map G R)
          = map G (filter (\<lambda>row. cell cols row ''Cost'' \<noteq> NaN \<and> cell cols row ''Sales'' \<noteq> NaN) R)"
  proof -
    have "filter ((\<lambda>row. \<forall>c \<in> set [''Cost'', ''Sales'']. cell (map rename_key cols) row c \<noteq> NaN) \<circ> G) R
            = filter (\<lambda>row. cell cols row ''Cost'' \<noteq> NaN \<and> cell cols row ''Sales'' \<noteq> NaN) R"
      by (rule filter_cong) (simp_all add: assms(3,4))
    then show ?thesis by (simp only: filter_map)
  qed
  then show ?thesis using none by (simp add: dropna_def)
qed


lemma step_assign_plain:
  assumes "distinct cols"
  shows "assign_col c (map f (col \<lparr>columns = cols, rows = R\<rparr> c)) \<lparr>columns = cols, rows = R\<rparr>
           = \<lparr>columns = cols, rows = map (map_cells (\<lambda>k x. if k = c then f x else x) cols) R\<rparr>"
  using step_assign [of cols "\<lambda>k. k" c f R] assms by simp

lemma clean_cell_steps:
  "fill_cell (rename_key k)
     ((if k = ''Order_Number'' then canon_cell else (\<lambda>x. x))
       ((if k = ''Sales'' then to_numeric else (\<lambda>x. x))
         ((if k = ''Cost'' then to_numeric else (\<lambda>x. x))
           ((if k = ''Order_Date'' then (\<lambda>v. strftime_Ymd (to_datetime v)) else (\<lambda>x. x)) x))))
     = clean_cell k x"
  by (simp add: clean_cell_def convert_cell_def)

lemma fillna_cells:
  "fillna fill_values \<lparr>columns = map rename_key cols, rows = R\<rparr>
     = \<lparr>columns = map rename_key cols, rows = map (map_cells (\<lambda>k. fill_cell (rename_key k)) cols) R\<rparr>"
proof -
  have "\<And>row. map (\<lambda>(k, x). if x = NaN then (case map_of fill_values k of None \<Rightarrow> x | Some v \<Rightarrow> v) else x)
                 (zip (map rename_key cols) row)
               = map_cells (\<lambda>k. fill_cell (rename_key k)) cols row"
  proof -
    fix row
    have "map ((\<lambda>(k, x). if x = NaN then (case map_of fill_values k of None \<Rightarrow> x | Some v \<Rightarrow> v) else x)
                 \<circ> (\<lambda>(k, x). (rename_key k, x))) (zip cols row)
            = map (\<lambda>(k, x). fill_cell (rename_key k) x) (zip cols row)"
      by (rule map_cong) (auto simp: fill_cell_def)
    then show "map (\<lambda>(k, x). if x = NaN then (case map_of fill_values k of None \<Rightarrow> x | Some v \<Rightarrow> v) else x)
                 (zip (map rename_key cols) row)
               = map_cells (\<lambda>k. fill_cell (rename_key k)) cols row"
      by (simp only: map_cells_def zip_map_keys map_map)
  qed
  then show ?thesis by (simp add: fillna_def)
qed

lemma to_dict_records_cells:
  "to_dict_records \<lparr>columns = map rename_key cols, rows = map (map_cells F cols) R\<rparr>
     = map (\<lambda>row. dict_of (map (\<lambda>(k, x). (rename_key k, F k x)) (zip cols row))) R"
proof -
  have "\<And>row. zip (map rename_key cols) (map_cells F cols row)
               = map (\<lambda>(k, x). (rename_key k, F k x)) (zip cols row)"
    by (simp add: zip_map_keys zip_map_cells split_def o_def)
  then show ?thesis by (simp add: to_dict_records_def o_def)
qed

lemma transform_data_rows:
  assumes cols: "cols = columns (DataFrame recs)"
    and od: "''Order_Date'' \<in> set cols" and co: "''Cost'' \<in> set cols"
    and sa: "''Sales'' \<in> set cols"
  shows "transform_data recs =
     (if ''Order_Number'' \<notin> set cols then Inl (KeyError ''Order_Number'') else
      case collect (map (\<lambda>row. astype_int (cell cols row ''Order_Number'')) (kept_rows recs)) of
        Inl e \<Rightarrow> Inl e
      | Inr ints \<Rightarrow> Inr (Some (map (\<lambda>row. dict_of (map (\<lambda>(k, x). (rename_key k, clean_cell k x)) (zip cols row)))
                               (kept_rows recs))))"
proof (cases "''Order_Number'' \<in> set cols")
  case nu: True
  define R1 where "R1 = keep_first [] (rows (DataFrame recs))"
  define K where "K = kept_rows recs"
  define F1 where "F1 = (\<lambda>k x. if k = ''Order_Date'' then strftime_Ymd (to_datetime x) else x)"
  define F2 where "F2 = (\<lambda>k x. if k = ''Cost'' then to_numeric x else x)"
  define F3 where "F3 = (\<lambda>k x. if k = ''Sales'' then to_numeric x else x)"
  define F4 where "F4 = (\<lambda>k x. if k = ''Order_Number'' then canon_cell x else x)"
  define R6 where "R6 = map (map_cells F3 cols) (map (map_cells F2 cols) (map (map_cells F1 cols) K))"
  have d: "distinct cols" using cols by (simp add: distinct_columns_DataFrame)
  have K: "K = filter (\<lambda>row. cell cols row ''Cost'' \<noteq> NaN \<and> cell cols row ''Sales'' \<noteq> NaN) R1"
    by (simp add: K_def kept_rows_def Let_def cols R1_def)
  have e1: "drop_duplicates (DataFrame recs) = \<lparr>columns = cols, rows = R1\<rparr>"
    by (simp add: drop_duplicates_def cols R1_def)
  have e2: "assign_col ''Order_Date'' (map (\<lambda>v. strftime_Ymd (to_datetime v))
              (col \<lparr>columns = cols, rows = R1\<rparr> ''Order_Date'')) \<lparr>columns = cols, rows = R1\<rparr>
            = \<lparr>columns = cols, rows = map (map_cells F1 cols) R1\<rparr>"
    unfolding F1_def using d by (rule step_assign_plain)
  have e3: "rename_columns [(''Assigned Supervisor'', ''Assigned_Supervisor'')]
              \<lparr>columns = cols, rows = map (map_cells F1 cols) R1\<rparr>
            = \<lparr>columns = map rename_key cols, rows = map (map_cells F1 cols) R1\<rparr>"
    by (simp add: rename_columns_key)
  have e4: "dropna [''Cost'', ''Sales''] \<lparr>columns = map rename_key cols, rows = map (map_cells F1 cols) R1\<rparr>
            = Inr \<lparr>columns = map rename_key cols, rows = map (map_cells F1 cols) K\<rparr>"
    unfolding K using co sa
  proof (rule step_dropna)
    fix row
    have "cell (map rename_key cols) (map_cells F1 cols row) ''Cost'' = cell cols (map_cells F1 cols row) ''Cost''"
      by (rule cell_renamed) (rule rename_key_named)
    also have "\<dots> = cell cols row ''Cost''"
      by (rule cell_map_cells_same) (simp add: F1_def)
    finally show "cell (map rename_key cols) (map_cells F1 cols row) ''Cost'' = cell cols row ''Cost''" .
    have "cell (map rename_key cols) (map_cells F1 cols row) ''Sales'' = cell cols (map_cells F1 cols row) ''Sales''"
      by (rule cell_renamed) (rule rename_key_named)
    also have "\<dots> = cell cols row ''Sales''"
      by (rule cell_map_cells_same) (simp add: F1_def)
    finally show "cell (map rename_key cols) (map_cells F1 cols row) ''Sales'' = cell cols row ''Sales''" .
  qed
  have e5: "assign_col ''Cost'' (map to_numeric
              (col \<lparr>columns = map rename_key cols, rows = map (map_cells F1 cols) K\<rparr> ''Cost''))
              \<lparr>columns = map rename_key cols, rows = map (map_cells F1 cols) K\<rparr>
            = \<lparr>columns = map rename_key cols, rows = map (map_cells F2 cols) (map (map_cells F1 cols) K)\<rparr>"
    unfolding F2_def using d by (rule step_assign) (rule rename_key_named)
  have e6: "assign_col ''Sales'' (map to_numeric
              (col \<lparr>columns = map rename_key cols, rows = map (map_cells F2 cols) (map (map_cells F1 cols) K)\<rparr> ''Sales''))
              \<lparr>columns = map rename_key cols, rows = map (map_cells F2 cols) (map (map_cells F1 cols) K)\<rparr>
            = \<lparr>columns = map rename_key cols, rows = R6\<rparr>"
    unfolding F3_def R6_def using d by (rule step_assign) (rule rename_key_named)
  have cell6: "\<And>row. cell (map rename_key cols)
                  (map_cells F3 cols (map_cells F2 cols (map_cells F1 cols row))) ''Order_Number''
                = cell cols row ''Order_Number''"
  proof -
    fix row
    have "cell (map rename_key cols) (map_cells F3 cols (map_cells F2 cols (map_cells F1 cols row))) ''Order_Number''
            = cell cols (map_cells F3 cols (map_cells F2 cols (map_cells F1 cols row))) ''Order_Number''"
      by (rule cell_renamed) (rule rename_key_named)
    also have "\<dots> = cell cols (map_cells F2 cols (map_cells F1 cols row)) ''Order_Number''"
      by (rule cell_map_cells_same) (simp add: F3_def)
    also have "\<dots> = cell cols (map_cells F1 cols row) ''Order_Number''"
      by (rule cell_map_cells_same) (simp add: F2_def)
    also have "\<dots> = cell cols row ''Order_Number''"
      by (rule cell_map_cells_same) (simp add: F1_def)
    finally show "cell (map rename_key cols)
                  (map_cells F3 cols (map_cells F2 cols (map_cells F1 cols row))) ''Order_Number''
                = cell cols row ''Order_Number''" .
  qed
  have e7: "col \<lparr>columns = map rename_key cols, rows = R6\<rparr> ''Order_Number''
              = map (\<lambda>row. cell cols row ''Order_Number'') K"
    by (simp add: col_def R6_def o_def cell6)
  have nu': "''Order_Number'' \<in> set (map rename_key cols)"
    using nu by (simp only: named_in_renamed_columns)
  note [simp] = nu
  have start: "transform_data recs =
      (case collect (map astype_int (map (\<lambda>row. cell cols row ''Order_Number'') K)) of
         Inl e \<Rightarrow> Inl e
       | Inr ints \<Rightarrow> Inr (Some (to_dict_records (fillna fill_values
           (assign_col ''Order_Number'' (map astype_str ints) \<lparr>columns = map rename_key cols, rows = R6\<rparr>)))))"
    using od nu' unfolding transform_data_def Let_def
    by (simp only: cols [symmetric] e1 e2 e3 e4 e5 e6 e7 dataframe.simps sum.simps
          not_not if_True if_False simp_thms)
  show ?thesis
  proof (cases "collect (map astype_int (map (\<lambda>row. cell cols row ''Order_Number'') K))")
    case (Inl e)
    then show ?thesis using start by (simp add: K_def o_def)
  next
    case (Inr ints)
    then have c: "collect (map (\<lambda>row. astype_int (cell cols row ''Order_Number'')) K) = Inr ints"
      by (simp add: o_def)
    have ints: "ints = map (\<lambda>row. projr (astype_int (cell cols row ''Order_Number''))) K"
      and all: "\<forall>row \<in> set K. astype_int (cell cols row ''Order_Number'')
                  = Inr (projr (astype_int (cell cols row ''Order_Number'')))"
      using collect_map_Inr [OF c] by simp_all
    have "map astype_str ints = map canon_cell (map (\<lambda>row. cell cols row ''Order_Number'') K)"
    proof -
      have "map (\<lambda>row. astype_str (projr (astype_int (cell cols row ''Order_Number'')))) K
              = map (\<lambda>row. canon_cell (cell cols row ''Order_Number'')) K"
      proof (rule map_cong)
        fix row assume "row \<in> set K"
        then have "astype_int (cell cols row ''Order_Number'')
                     = Inr (projr (astype_int (cell cols row ''Order_Number'')))"
          using all by blast
        then obtain i where i: "astype_int (cell cols row ''Order_Number'') = Inr i" ..
        then show "astype_str (projr (astype_int (cell cols row ''Order_Number'')))
                     = canon_cell (cell cols row ''Order_Number'')"
          by (simp add: canon_cell_def)
      qed simp
      then show ?thesis by (simp add: ints o_def)
    qed
    then have "assign_col ''Order_Number'' (map astype_str ints) \<lparr>columns = map rename_key cols, rows = R6\<rparr>
        = assign_col ''Order_Number'' (map canon_cell (col \<lparr>columns = map rename_key cols, rows = R6\<rparr> ''Order_Number''))
            \<lparr>columns = map rename_key cols, rows = R6\<rparr>"
      by (simp only: e7)
    also have "\<dots> = \<lparr>columns = map rename_key cols, rows = map (map_cells F4 cols) R6\<rparr>"
      unfolding F4_def using d by (rule step_assign) (rule rename_key_named)
    finally have e8: "assign_col ''Order_Number'' (map astype_str ints) \<lparr>columns = map rename_key cols, rows = R6\<rparr>
        = \<lparr>columns = map rename_key cols, rows = map (map_cells F4 cols) R6\<rparr>" .
    have rows: "map (map_cells (\<lambda>k. fill_cell (rename_key k)) cols) (map (map_cells F4 cols) R6)
                  = map (map_cells clean_cell cols) K"
    proof -
      have "(\<lambda>k x. fill_cell (rename_key k) (F4 k (F3 k (F2 k (F1 k x))))) = clean_cell"
      proof (intro ext)
        fix k x
        show "fill_cell (rename_key k) (F4 k (F3 k (F2 k (F1 k x)))) = clean_cell k x"
          by (simp add: F1_def F2_def F3_def F4_def clean_cell_def convert_cell_def)
      qed
      then show ?thesis by (simp add: R6_def o_def map_cells_comp)
    qed
    have "transform_data recs = Inr (Some (to_dict_records (fillna fill_values
            (assign_col ''Order_Number'' (map astype_str ints) \<lparr>columns = map rename_key cols, rows = R6\<rparr>))))"
      by (simp only: start Inr sum.simps)
    then have "transform_data recs = Inr (Some (to_dict_records
            \<lparr>columns = map rename_key cols, rows = map (map_cells clean_cell cols) K\<rparr>))"
      by (simp only: e8 fillna_cells rows)
    then show ?thesis using c by (simp add: to_dict_records_cells K_def)
  qed
next
  case nu: False
  define R1 where "R1 = keep_first [] (rows (DataFrame recs))"
  define K where "K = kept_rows recs"
  define F1 where "F1 = (\<lambda>k x. if k = ''Order_Date'' then strftime_Ymd (to_datetime x) else x)"
  define F2 where "F2 = (\<lambda>k x. if k = ''Cost'' then to_numeric x else x)"
  define F3 where "F3 = (\<lambda>k x. if k = ''Sales'' then to_numeric x else x)"
  define R6 where "R6 = map (map_cells F3 cols) (map (map_cells F2 cols) (map (map_cells F1 cols) K))"
  have d: "distinct cols" using cols by (simp add: distinct_columns_DataFrame)
  have K: "K = filter (\<lambda>row. cell cols row ''Cost'' \<noteq> NaN \<and> cell cols row ''Sales'' \<noteq> NaN) R1"
    by (simp add: K_def kept_rows_def Let_def cols R1_def)
  have e1: "drop_duplicates (DataFrame recs) = \<lparr>columns = cols, rows = R1\<rparr>"
    by (simp add: drop_duplicates_def cols R1_def)
  have e2: "assign_col ''Order_Date'' (map (\<lambda>v. strftime_Ymd (to_datetime v))
              (col \<lparr>columns = cols, rows = R1\<rparr> ''Order_Date'')) \<lparr>columns = cols, rows = R1\<rparr>
            = \<lparr>columns = cols, rows = map (map_cells F1 cols) R1\<rparr>"
    unfolding F1_def using d by (rule step_assign_plain)
  have e3: "rename_columns [(''Assigned Supervisor'', ''Assigned_Supervisor'')]
              \<lparr>columns = cols, rows = map (map_cells F1 cols) R1\<rparr>
            = \<lparr>columns = map rename_key cols, rows = map (map_cells F1 cols) R1\<rparr>"
    by (simp add: rename_columns_key)
  have e4: "dropna [''Cost'', ''Sales''] \<lparr>columns = map rename_key cols, rows = map (map_cells F1 cols) R1\<rparr>
            = Inr \<lparr>columns = map rename_key cols, rows = map (map_cells F1 cols) K\<rparr>"
    unfolding K using co sa
  proof (rule step_dropna)
    fix row
    have "cell (map rename_key cols) (map_cells F1 cols row) ''Cost'' = cell cols (map_cells F1 cols row) ''Cost''"
      by (rule cell_renamed) (rule rename_key_named)
    also have "\<dots> = cell cols row ''Cost''"
      by (rule cell_map_cells_same) (simp add: F1_def)
    finally show "cell (map rename_key cols) (map_cells F1 cols row) ''Cost'' = cell cols row ''Cost''" .
    have "cell (map rename_key cols) (map_cells F1 cols row) ''Sales'' = cell cols (map_cells F1 cols row) ''Sales''"
      by (rule cell_renamed) (rule rename_key_named)
    also have "\<dots> = cell cols row ''Sales''"
      by (rule cell_map_cells_same) (simp add: F1_def)
    finally show "cell (map rename_key cols) (map_cells F1 cols row) ''Sales'' = cell cols row ''Sales''" .
  qed
  have e5: "assign_col ''Cost'' (map to_numeric
              (col \<lparr>columns = map rename_key cols, rows = map (map_cells F1 cols) K\<rparr> ''Cost''))
              \<lparr>columns = map rename_key cols, rows = map (map_cells F1 cols) K\<rparr>
            = \<lparr>columns = map rename_key cols, rows = map (map_cells F2 cols) (map (map_cells F1 cols) K)\<rparr>"
    unfolding F2_def using d by (rule step_assign) (rule rename_key_named)
  have e6: "assign_col ''Sales'' (map to_numeric
              (col \<lparr>columns = map rename_key cols, rows = map (map_cells F2 cols) (map (map_cells F1 cols) K)\<rparr> ''Sales''))
              \<lparr>columns = map rename_key cols, rows = map (map_cells F2 cols) (map (map_cells F1 cols) K)\<rparr>
            = \<lparr>columns = map rename_key cols, rows = R6\<rparr>"
    unfolding F3_def R6_def using d by (rule step_assign) (rule rename_key_named)
  have nu': "''Order_Number'' \<notin> set (map rename_key cols)"
    using nu by (simp only: named_in_renamed_columns simp_thms)
  have "transform_data recs = Inl (KeyError ''Order_Number'')"
    using od nu' unfolding transform_data_def Let_def
    by (simp only: cols [symmetric] e1 e2 e3 e4 e5 e6 dataframe.simps sum.simps
          not_not if_True if_False simp_thms)
  then show ?thesis using nu by simp
qed

section \<open>The cleaning stage, record by record\<close>

lemma columns_assign_col: "columns (assign_col c vs df) = columns df"
  by (simp add: assign_col_def)

lemma columns_drop_duplicates: "columns (drop_duplicates df) = columns df"
  by (simp add: drop_duplicates_def)

lemma transform_data_no_date:
  "''Order_Date'' \<notin> set (columns (DataFrame recs)) \<Longrightarrow> transform_data recs = Inr None"
  by (simp add: transform_data_def Let_def)

lemma dropna_missing:
  assumes "c \<in> set names" and "c \<notin> set (columns df)"
  shows "\<exists>m. dropna names df = Inl (KeyError m)"
proof -
  have "c \<in> set (filter (\<lambda>c. c \<notin> set (columns df)) names)" using assms by simp
  then obtain x xs where "filter (\<lambda>c. c \<notin> set (columns df)) names = x # xs"
    by (cases "filter (\<lambda>c. c \<notin> set (columns df)) names") auto
  then show ?thesis by (simp add: dropna_def)
qed

lemma transform_data_KeyError:
  assumes "''Order_Date'' \<in> set (columns (DataFrame recs))"
    and "''Cost'' \<notin> set (columns (DataFrame recs)) \<or> ''Sales'' \<notin> set (columns (DataFrame recs))"
  shows "\<exists>m. transform_data recs = Inl (KeyError m)"
proof -
  let ?df3 = "rename_columns [(''Assigned Supervisor'', ''Assigned_Supervisor'')]
     (assign_col ''Order_Date''
        (map (\<lambda>v. strftime_Ymd (to_datetime v)) (col (drop_duplicates (DataFrame recs)) ''Order_Date''))
        (drop_duplicates (DataFrame recs)))"
  have c3: "columns ?df3 = map rename_key (columns (DataFrame recs))"
    by (simp add: rename_columns_key columns_assign_col columns_drop_duplicates)
  have "''Cost'' \<notin> set (columns ?df3) \<or> ''Sales'' \<notin> set (columns ?df3)"
    using assms(2) by (simp only: c3 named_in_renamed_columns)
  then obtain c where "c \<in> set [''Cost'', ''Sales'']" and "c \<notin> set (columns ?df3)" by auto
  then obtain m where "dropna [''Cost'', ''Sales''] ?df3 = Inl (KeyError m)"
    using dropna_missing by blast
  then show ?thesis using assms(1) by (simp add: transform_data_def Let_def)
qed

lemma transform_data_Some_columns:
  assumes "transform_data recs = Inr (Some out)"
  shows "''Order_Date'' \<in> set (columns (DataFrame recs))"
    and "''Cost'' \<in> set (columns (DataFrame recs))"
    and "''Sales'' \<in> set (columns (DataFrame recs))"
    and "''Order_Number'' \<in> set (columns (DataFrame recs))"
proof -
  show od: "''Order_Date'' \<in> set (columns (DataFrame recs))"
    using assms transform_data_no_date [of recs] by auto
  show co: "''Cost'' \<in> set (columns (DataFrame recs))"
    using assms od transform_data_KeyError [of recs] by auto
  show sa: "''Sales'' \<in> set (columns (DataFrame recs))"
    using assms od transform_data_KeyError [of recs] by auto
  show "''Order_Number'' \<in> set (columns (DataFrame recs))"
    using assms transform_data_rows [OF refl od co sa] by (auto split: if_splits)
qed

lemma kept_rows_records:
  "set (kept_rows recs) =
     (\<lambda>r. map (dict_get r) (columns (DataFrame recs)))
       ` {r \<in> set recs. dict_get r ''Cost'' \<noteq> NaN \<and> dict_get r ''Sales'' \<noteq> NaN}"
proof -
  let ?cols = "columns (DataFrame recs)"
  have "set (kept_rows recs) =
          {row \<in> set (rows (DataFrame recs)). cell ?cols row ''Cost'' \<noteq> NaN \<and> cell ?cols row ''Sales'' \<noteq> NaN}"
    by (simp add: kept_rows_def Let_def set_keep_first)
  also have "\<dots> = (\<lambda>r. map (dict_get r) ?cols)
       ` {r \<in> set recs. cell ?cols (map (dict_get r) ?cols) ''Cost'' \<noteq> NaN
                        \<and> cell ?cols (map (dict_get r) ?cols) ''Sales'' \<noteq> NaN}"
    by (auto simp: rows_DataFrame)
  also have "\<dots> = (\<lambda>r. map (dict_get r) ?cols)
       ` {r \<in> set recs. dict_get r ''Cost'' \<noteq> NaN \<and> dict_get r ''Sales'' \<noteq> NaN}"
    by (auto simp: cell_DataFrame)
  finally show ?thesis .
qed

lemma clean_row_record:
  "dict_of (map (\<lambda>(k, x). (rename_key k, clean_cell k x)) (zip cols (map (dict_get r) cols)))
     = clean_record cols r"
  by (simp add: clean_record_def zip_map_self o_def)

lemma transform_data_cases:
  assumes "''Order_Date'' \<in> set (columns (DataFrame recs))"
    and "''Cost'' \<in> set (columns (DataFrame recs))"
    and "''Sales'' \<in> set (columns (DataFrame recs))"
    and "''Order_Number'' \<in> set (columns (DataFrame recs))"
  shows "transform_data recs =
     (case collect (map (\<lambda>row. astype_int (cell (columns (DataFrame recs)) row ''Order_Number''))
                      (kept_rows recs)) of
        Inl e \<Rightarrow> Inl e
      | Inr ints \<Rightarrow> Inr (Some (map (\<lambda>row. dict_of (map (\<lambda>(k, x). (rename_key k, clean_cell k x))
                                    (zip (columns (DataFrame recs)) row))) (kept_rows recs))))"
  using transform_data_rows [OF refl assms(1,2,3)] assms(4) by simp


lemma record_kept_row:
  assumes "r \<in> set recs" and "dict_get r ''Cost'' \<noteq> NaN" and "dict_get r ''Sales'' \<noteq> NaN"
  shows "map (dict_get r) (columns (DataFrame recs)) \<in> set (kept_rows recs)"
  using assms unfolding kept_rows_records by blast

text \<open>A successful run pushes the cleaned forms of exactly the records that are kept.\<close>

lemma transform_data_Some:
  assumes "transform_data recs = Inr (Some out)"
  shows "set out = clean_record (columns (DataFrame recs))
           ` {r \<in> set recs. dict_get r ''Cost'' \<noteq> NaN \<and> dict_get r ''Sales'' \<noteq> NaN}"
    and "\<forall>r \<in> set recs. dict_get r ''Cost'' \<noteq> NaN \<and> dict_get r ''Sales'' \<noteq> NaN
           \<longrightarrow> (\<exists>i. astype_int (dict_get r ''Order_Number'') = Inr i)"
proof -
  let ?cols = "columns (DataFrame recs)"
  let ?f = "\<lambda>row. astype_int (cell ?cols row ''Order_Number'')"
  note c = transform_data_Some_columns [OF assms]
  note eq = transform_data_cases [OF c]
  obtain ints where ints: "collect (map ?f (kept_rows recs)) = Inr ints"
    using eq assms by (cases "collect (map ?f (kept_rows recs))") auto
  have out: "out = map (\<lambda>row. dict_of (map (\<lambda>(k, x). (rename_key k, clean_cell k x)) (zip ?cols row)))
                     (kept_rows recs)"
    using eq assms ints by simp
  have "set out = (\<lambda>row. dict_of (map (\<lambda>(k, x). (rename_key k, clean_cell k x)) (zip ?cols row)))
                    ` set (kept_rows recs)"
    by (simp add: out)
  also have "\<dots> = (\<lambda>r. dict_of (map (\<lambda>(k, x). (rename_key k, clean_cell k x))
                          (zip ?cols (map (dict_get r) ?cols))))
                    ` {r \<in> set recs. dict_get r ''Cost'' \<noteq> NaN \<and> dict_get r ''Sales'' \<noteq> NaN}"
    by (simp only: kept_rows_records image_image)
  finally show "set out = clean_record ?cols
           ` {r \<in> set recs. dict_get r ''Cost'' \<noteq> NaN \<and> dict_get r ''Sales'' \<noteq> NaN}"
    by (simp only: clean_row_record)
  show "\<forall>r \<in> set recs. dict_get r ''Cost'' \<noteq> NaN \<and> dict_get r ''Sales'' \<noteq> NaN
           \<longrightarrow> (\<exists>i. astype_int (dict_get r ''Order_Number'') = Inr i)"
  proof (intro ballI impI)
    fix r assume r: "r \<in> set recs" and k: "dict_get r ''Cost'' \<noteq> NaN \<and> dict_get r ''Sales'' \<noteq> NaN"
    then have "map (dict_get r) ?cols \<in> set (kept_rows recs)"
      by (simp add: record_kept_row)
    then have "?f (map (dict_get r) ?cols) = Inr (projr (?f (map (dict_get r) ?cols)))"
      using collect_map_Inr [OF ints] by blast
    then show "\<exists>i. astype_int (dict_get r ''Order_Number'') = Inr i"
      using r by (auto simp: cell_DataFrame)
  qed
qed




section \<open>The cells of a cleaned record\<close>

lemma map_of_dict_set: "map_of (dict_set d k v) = (map_of d)(k \<mapsto> v)"
  by (induction d) (auto simp: fun_eq_iff)

lemma map_of_foldl_dict_set:
  "map_of (foldl (\<lambda>d (k, v). dict_set d k v) d kvs) c =
     (case map_of (rev kvs) c of None \<Rightarrow> map_of d c | Some v \<Rightarrow> Some v)"
proof (induction kvs arbitrary: d)
  case Nil
  then show ?case by simp
next
  case (Cons p kvs)
  obtain k v where p: "p = (k, v)" by (cases p)
  show ?case
    by (simp add: p Cons.IH map_of_dict_set map_add_def split: option.splits)
qed

lemma map_of_dict_of: "map_of (dict_of kvs) c = map_of (rev kvs) c"
  by (simp add: dict_of_def map_of_foldl_dict_set split: option.splits)

lemma map_of_single_key:
  assumes "(k, v) \<in> set kvs" and "\<And>v'. (k, v') \<in> set kvs \<Longrightarrow> v' = v"
  shows "map_of kvs k = Some v"
proof -
  have "k \<in> fst ` set kvs" using assms(1) by force
  then obtain v' where v': "map_of kvs k = Some v'"
    by (cases "map_of kvs k") (auto simp: map_of_eq_None_iff)
  then have "(k, v') \<in> set kvs" by (rule map_of_SomeD)
  then have "v' = v" by (rule assms(2))
  then show ?thesis using v' by simp
qed

lemma dict_get_clean_record:
  assumes "c \<in> set cols" and "\<And>k. rename_key k = c \<longleftrightarrow> k = c"
  shows "dict_get (clean_record cols r) c = clean_cell c (dict_get r c)"
proof -
  let ?kvs = "map (\<lambda>k. (rename_key k, clean_cell k (dict_get r k))) cols"
  have "map_of (rev ?kvs) c = Some (clean_cell c (dict_get r c))"
  proof (rule map_of_single_key)
    have "rename_key c = c" using assms(2) [of c] by simp
    then have "(c, clean_cell c (dict_get r c)) = (rename_key c, clean_cell c (dict_get r c))"
      by simp
    then have "(c, clean_cell c (dict_get r c)) \<in> (\<lambda>k. (rename_key k, clean_cell k (dict_get r k))) ` set cols"
      using assms(1) by (rule image_eqI)
    then show "(c, clean_cell c (dict_get r c)) \<in> set (rev ?kvs)"
      by (simp only: set_rev set_map)
  next
    fix v' assume "(c, v') \<in> set (rev ?kvs)"
    then obtain k where k: "k \<in> set cols" "rename_key k = c" "v' = clean_cell k (dict_get r k)"
      by auto
    then have "k = c" using assms(2) [of k] by simp
    then show "v' = clean_cell c (dict_get r c)" using k by simp
  qed
  then show ?thesis by (simp add: clean_record_def dict_get_def map_of_dict_of)
qed

lemma clean_cell_named:
  "clean_cell ''Order_Number'' v = canon_cell v"
  "clean_cell ''Cost'' v = to_numeric v"
  "clean_cell ''Sales'' v = to_numeric v"
  "clean_cell ''Order_Date'' v = strftime_Ymd (to_datetime v)"
  by (simp_all add: clean_cell_def convert_cell_def fill_cell_def fill_values_def rename_key_def)

lemma clean_record_named:
  "''Order_Number'' \<in> set cols \<Longrightarrow>
     dict_get (clean_record cols r) ''Order_Number'' = canon_cell (dict_get r ''Order_Number'')"
  "''Cost'' \<in> set cols \<Longrightarrow>
     dict_get (clean_record cols r) ''Cost'' = to_numeric (dict_get r ''Cost'')"
  "''Sales'' \<in> set cols \<Longrightarrow>
     dict_get (clean_record cols r) ''Sales'' = to_numeric (dict_get r ''Sales'')"
  "''Order_Date'' \<in> set cols \<Longrightarrow>
     dict_get (clean_record cols r) ''Order_Date'' = strftime_Ymd (to_datetime (dict_get r ''Order_Date''))"
  by (simp_all only: dict_get_clean_record rename_key_named clean_cell_named)

section \<open>The claims about the cleaning stage\<close>

text \<open>
  C7. When no staged record has an \<^verbatim>\<open>Order_Date\<close> field, the frame has no such
  column: \<^verbatim>\<open>transform_data\<close> returns without raising and pushes nothing, and
  the loading stage, which pulls nothing, executes no statement: it ends
  without error and the destination table is as it was.
\<close>

theorem transform_data_no_order_date:
  assumes "\<forall>r \<in> set staged. ''Order_Date'' \<notin> fst ` set r"
  shows "transform_data staged = Inr None
         \<and> load_transformed_data_to_postgresql None dest = (Inr (), dest)"
proof -
  have "''Order_Date'' \<notin> set (columns (DataFrame staged))"
    using assms by (auto simp: columns_DataFrame)
  then have "transform_data staged = Inr None" by (rule transform_data_no_date)
  moreover have "load_transformed_data_to_postgresql None dest = (Inr (), dest)"
    by (simp add: load_transformed_data_to_postgresql_def DataFrame_opt_def DataFrame_def
        to_dict_records_def)
  ultimately show ?thesis by simp
qed

theorem transform_data_no_order_date_witness:
  "transform_data [[(''Order_Number'', VNum 1001), (''Cost'', VNum 5), (''Sales'', VNum 7)]] = Inr None
   \<and> load_transformed_data_to_postgresql None [[(''Order_Number'', VStr ''2002'')]]
       = (Inr (), [[(''Order_Number'', VStr ''2002'')]])"
  using transform_data_no_order_date
    [of "[[(''Order_Number'', VNum 1001), (''Cost'', VNum 5), (''Sales'', VNum 7)]]"
        "[[(''Order_Number'', VStr ''2002'')]]"]
  by simp



text \<open>
  C5, as the code has it. Every record that the stage pushes is the cleaned
  form of a staged record whose \<^verbatim>\<open>Cost\<close> and \<^verbatim>\<open>Sales\<close> are not null: a record
  with a null \<^verbatim>\<open>Cost\<close> is not in the output.
\<close>

theorem transform_data_drops_null_cost:
  assumes "transform_data staged = Inr (Some out)" and "x \<in> set out"
  shows "\<exists>r \<in> set staged. dict_get r ''Cost'' \<noteq> NaN \<and> dict_get r ''Sales'' \<noteq> NaN
           \<and> x = clean_record (columns (DataFrame staged)) r"
  using assms(2) unfolding transform_data_Some(1) [OF assms(1)] by blast

theorem transform_data_drops_null_cost_witness:
  "\<exists>r \<in> set [[(''Order_Number'', VNum 1), (''Order_Date'', NaN), (''Cost'', NaN), (''Sales'', VNum 5)],
              [(''Order_Number'', VNum 2), (''Order_Date'', NaN), (''Cost'', VNum 3), (''Sales'', VNum 5)]].
      dict_get r ''Cost'' \<noteq> NaN \<and> dict_get r ''Sales'' \<noteq> NaN
      \<and> [(''Order_Number'', VStr ''2''), (''Order_Date'', NaN), (''Cost'', VNum 3), (''Sales'', VNum 5)]
          = clean_record
              (columns (DataFrame
                [[(''Order_Number'', VNum 1), (''Order_Date'', NaN), (''Cost'', NaN), (''Sales'', VNum 5)],
                 [(''Order_Number'', VNum 2), (''Order_Date'', NaN), (''Cost'', VNum 3), (''Sales'', VNum 5)]]))
              r"
proof -
  let ?recs = "[[(''Order_Number'', VNum 1), (''Order_Date'', NaN), (''Cost'', NaN), (''Sales'', VNum 5)],
                [(''Order_Number'', VNum 2), (''Order_Date'', NaN), (''Cost'', VNum 3), (''Sales'', VNum 5)]]"
  let ?o = "[(''Order_Number'', VStr ''2''), (''Order_Date'', NaN), (''Cost'', VNum 3), (''Sales'', VNum 5)]"
  have t: "transform_data ?recs = Inr (Some [?o])" by code_simp
  have m: "?o \<in> set [?o]" by simp
  show ?thesis using transform_data_drops_null_cost [OF t m] .
qed

text \<open>
  C5 as stated fails: an empty text is not null. The record with \<^verbatim>\<open>Cost = ""\<close>
  is kept by \<^verbatim>\<open>dropna\<close>, its \<^verbatim>\<open>Cost\<close> becomes null in \<^verbatim>\<open>to_numeric\<close>, and it is
  pushed to the loading stage.
\<close>

theorem transform_data_empty_cost_counterexample:
  "transform_data
     [[(''Order_Number'', VNum 3003), (''Order_Date'', VStr ''01/02/2024''),
       (''Cost'', VStr ''''), (''Sales'', VNum 5)]]
   = Inr (Some [[(''Order_Number'', VStr ''3003''), (''Order_Date'', VStr ''2024-02-01''),
                 (''Cost'', NaN), (''Sales'', VNum 5)]])"
  by code_simp

section \<open>Printing and reading integers\<close>

lemma less_ten_cases:
  assumes "k < (10::nat)"
  shows "k = 0 \<or> k = 1 \<or> k = 2 \<or> k = 3 \<or> k = 4 \<or> k = 5 \<or> k = 6 \<or> k = 7 \<or> k = 8 \<or> k = 9"
  using assms by arith

lemma digit_val_digit_char: "k < 10 \<Longrightarrow> digit_val (digit_char k) = Some k"
  using less_ten_cases [of k] by (auto simp: digit_val_def digit_char_def)

lemma digit_char_plain:
  assumes "k < 10"
  shows "digit_char k \<noteq> CHR ''-''" and "digit_char k \<noteq> CHR ''+''" and "digit_char k \<noteq> CHR ''_''"
    and "digit_char k \<noteq> CHR ''/''" and "\<not> py_space (digit_char k)"
  using less_ten_cases [OF assms] by (auto simp: digit_char_def py_space_def)



lemma show_nat_digits: "c \<in> set (show_nat n) \<Longrightarrow> \<exists>k < 10. c = digit_char k"
proof (induction n rule: show_nat.induct)
  case (1 n)
  show ?case
  proof (cases "n < 10")
    case True
    then show ?thesis using "1.prems" by (auto simp: show_nat.simps [of n])
  next
    case False
    have m: "n mod 10 < 10" by simp
    have "c \<in> set (show_nat (n div 10)) \<or> c = digit_char (n mod 10)"
      using "1.prems" False by (auto simp: show_nat.simps [of n])
    then show ?thesis
    proof
      assume "c \<in> set (show_nat (n div 10))"
      then show ?thesis using "1.IH" False by blast
    next
      assume "c = digit_char (n mod 10)"
      then show ?thesis using m by blast
    qed
  qed
qed















section \<open>Reading and printing dates\<close>

lemma until_slash_append:
  "CHR ''/'' \<notin> set ds \<Longrightarrow> until_slash (ds @ CHR ''/'' # rest) = ds"
  by (induction ds) (auto simp: until_slash_def)

lemma after_slash_append:
  "CHR ''/'' \<notin> set ds \<Longrightarrow> after_slash (ds @ CHR ''/'' # rest) = Some rest"
  by (induction ds) (auto simp: after_slash_def)

lemma digit_char_not_blank: "k < 10 \<Longrightarrow> digit_char k \<noteq> CHR '' ''"
  using less_ten_cases [of k] by (auto simp: digit_char_def)

lemma pad2_no_slash: "CHR ''/'' \<notin> set (pad2 n)"
proof -
  have a: "n div 10 mod 10 < 10" and b: "n mod 10 < 10" by simp_all
  have "digit_char (n div 10 mod 10) \<noteq> CHR ''/''" using a by (rule digit_char_plain(4))
  moreover have "digit_char (n mod 10) \<noteq> CHR ''/''" using b by (rule digit_char_plain(4))
  ultimately show ?thesis by (auto simp: pad2_def)
qed

lemma show_nat_no_slash: "CHR ''/'' \<notin> set (show_nat n)"
  using show_nat_digits [of "CHR ''/''" n] digit_char_plain(4) by metis

lemma show_nat_two: "10 \<le> n \<Longrightarrow> n < 100 \<Longrightarrow> show_nat n = pad2 n"
proof -
  assume a: "10 \<le> n" "n < 100"
  then have "n div 10 < 10" by simp
  then have "show_nat (n div 10) = [digit_char (n div 10)]" by (simp add: show_nat.simps [of "n div 10"])
  moreover have "n div 10 mod 10 = n div 10" using a by simp
  ultimately show ?thesis using a by (simp add: show_nat.simps [of n] pad2_def)
qed

lemma show_nat_one: "n < 10 \<Longrightarrow> show_nat n = [digit_char n]"
  by (simp add: show_nat.simps [of n])

lemma strp_d_digits:
  assumes "x < 10" and "y < 10" and "1 \<le> 10 * x + y" and "10 * x + y \<le> 31"
  shows "strp_d [digit_char x, digit_char y] = Some (10 * x + y)"
  using assms
  by (simp add: strp_d_def digit_val_digit_char digit_char_not_blank)

lemma strp_d_pad2: "1 \<le> d \<Longrightarrow> d \<le> 31 \<Longrightarrow> strp_d (pad2 d) = Some d"
proof -
  assume a: "1 \<le> d" "d \<le> 31"
  define x where "x = d div 10 mod 10"
  define y where "y = d mod 10"
  have xy: "x < 10" "y < 10" by (simp_all add: x_def y_def)
  have e: "10 * x + y = d"
  proof -
    have "d div 10 < 10" using a by simp
    then have "d div 10 mod 10 = d div 10" by simp
    then show ?thesis unfolding x_def y_def by simp
  qed
  have "strp_d [digit_char x, digit_char y] = Some (10 * x + y)"
    using xy a by (intro strp_d_digits) (simp_all only: e)
  then show ?thesis by (simp only: e pad2_def x_def [symmetric] y_def [symmetric])
qed

lemma strp_d_show_nat: "1 \<le> d \<Longrightarrow> d \<le> 31 \<Longrightarrow> strp_d (show_nat d) = Some d"
proof (cases "d < 10")
  case True
  assume "1 \<le> d"
  then show ?thesis using True by (simp add: show_nat_one strp_d_def digit_val_digit_char)
next
  case False
  assume "1 \<le> d" "d \<le> 31"
  then show ?thesis using False by (simp add: show_nat_two strp_d_pad2)
qed

lemma strp_m_digits:
  assumes "x < 10" and "y < 10" and "1 \<le> 10 * x + y" and "10 * x + y \<le> 12"
  shows "strp_m [digit_char x, digit_char y] = Some (10 * x + y)"
  using assms
  by (simp add: strp_m_def digit_val_digit_char)

lemma strp_m_pad2: "1 \<le> m \<Longrightarrow> m \<le> 12 \<Longrightarrow> strp_m (pad2 m) = Some m"
proof -
  assume a: "1 \<le> m" "m \<le> 12"
  define x where "x = m div 10 mod 10"
  define y where "y = m mod 10"
  have xy: "x < 10" "y < 10" by (simp_all add: x_def y_def)
  have e: "10 * x + y = m"
  proof -
    have "m div 10 < 10" using a by simp
    then have "m div 10 mod 10 = m div 10" by simp
    then show ?thesis unfolding x_def y_def by simp
  qed
  have "strp_m [digit_char x, digit_char y] = Some (10 * x + y)"
    using xy a by (intro strp_m_digits) (simp_all only: e)
  then show ?thesis by (simp only: e pad2_def x_def [symmetric] y_def [symmetric])
qed

lemma strp_m_show_nat: "1 \<le> m \<Longrightarrow> m \<le> 12 \<Longrightarrow> strp_m (show_nat m) = Some m"
proof (cases "m < 10")
  case True
  assume "1 \<le> m"
  then show ?thesis using True by (simp add: show_nat_one strp_m_def digit_val_digit_char)
next
  case False
  assume "1 \<le> m" "m \<le> 12"
  then show ?thesis using False by (simp add: show_nat_two strp_m_pad2)
qed

lemma strp_Y_digits:
  assumes "a < 10" and "b < 10" and "c < 10" and "d < 10"
  shows "strp_Y [digit_char a, digit_char b, digit_char c, digit_char d]
           = Some (10 * (10 * (10 * a + b) + c) + d)"
  using assms by (simp add: strp_Y_def parse_digits_def digit_val_digit_char)

lemma strp_Y_pad4: "y < 10000 \<Longrightarrow> strp_Y (pad4 y) = Some y"
proof -
  assume a: "y < 10000"
  define a3 where "a3 = y div 1000 mod 10"
  define a2 where "a2 = y div 100 mod 10"
  define a1 where "a1 = y div 10 mod 10"
  define a0 where "a0 = y mod 10"
  have d: "a3 < 10" "a2 < 10" "a1 < 10" "a0 < 10"
    by (simp_all add: a3_def a2_def a1_def a0_def)
  have e: "10 * (10 * (10 * a3 + a2) + a1) + a0 = y"
  proof -
    have h3: "y div 1000 = y div 10 div 10 div 10" and h2: "y div 100 = y div 10 div 10"
      by (simp_all add: div_mult2_eq [symmetric])
    have "y div 1000 < 10" using a by simp
    then have c: "a3 = y div 10 div 10 div 10" unfolding a3_def h3 by simp
    have b: "10 * (y div 10 div 10 div 10) + a2 = y div 10 div 10"
      unfolding a2_def h2 by simp
    have a': "10 * (y div 10 div 10) + a1 = y div 10" unfolding a1_def by simp
    have "10 * (y div 10) + a0 = y" unfolding a0_def by simp
    then show ?thesis using a' b c by simp
  qed
  have "strp_Y [digit_char a3, digit_char a2, digit_char a1, digit_char a0]
          = Some (10 * (10 * (10 * a3 + a2) + a1) + a0)"
    using d by (rule strp_Y_digits)
  then show ?thesis
    by (simp only: e pad4_def a3_def [symmetric] a2_def [symmetric] a1_def [symmetric] a0_def [symmetric])
qed

lemma valid_date_bounds:
  assumes "valid_date (y, m, d)"
  shows "1 \<le> m" "m \<le> 12" "1 \<le> d" "d \<le> 31" "y < 10000"
  using assms by (auto simp: valid_date_def date_le_def days_in_month_def split: if_splits)

lemma strptime_dmY_text:
  assumes "valid_date (y, m, d)"
    and "ds = pad2 d \<or> ds = show_nat d" and "ms = pad2 m \<or> ms = show_nat m"
  shows "strptime_dmY (ds @ ''/'' @ ms @ ''/'' @ pad4 y) = Some (y, m, d)"
proof -
  note b = valid_date_bounds [OF assms(1)]
  have ds: "CHR ''/'' \<notin> set ds" "strp_d ds = Some d"
    using assms(2) b by (auto simp: pad2_no_slash show_nat_no_slash strp_d_pad2 strp_d_show_nat)
  have ms: "CHR ''/'' \<notin> set ms" "strp_m ms = Some m"
    using assms(3) b by (auto simp: pad2_no_slash show_nat_no_slash strp_m_pad2 strp_m_show_nat)
  have y: "strp_Y (pad4 y) = Some y" using b by (simp add: strp_Y_pad4)
  have s: "ds @ ''/'' @ ms @ ''/'' @ pad4 y = ds @ CHR ''/'' # (ms @ CHR ''/'' # pad4 y)" by simp
  show ?thesis
    unfolding s strptime_dmY_def
    by (simp only: until_slash_append [OF ds(1)] after_slash_append [OF ds(1)]
        until_slash_append [OF ms(1)] after_slash_append [OF ms(1)] ds(2) ms(2) y assms(1)
        option.simps if_True)
qed

text \<open>
  C9. In a run of the stage that pushes its output, a staged record that the
  drop steps keep (they look at \<^verbatim>\<open>Cost\<close> and \<^verbatim>\<open>Sales\<close> only, not at the date) is
  in the output in its cleaned form. When its \<^verbatim>\<open>Order_Date\<close> is the text of a
  date as day, month and year with strokes (day and month with or without a
  leading zero, the year with four digits; the date exists and lies within
  the time stamps of pandas), the cleaned \<^verbatim>\<open>Order_Date\<close> is the text of that
  date as year, month and day with hyphens, zero-padded. When the value does
  not parse, the cleaned \<^verbatim>\<open>Order_Date\<close> is null and the record is still there.
\<close>

theorem transform_data_order_date:
  assumes "transform_data staged = Inr (Some out)"
    and "r \<in> set staged" and "dict_get r ''Cost'' \<noteq> NaN" and "dict_get r ''Sales'' \<noteq> NaN"
  shows "clean_record (columns (DataFrame staged)) r \<in> set out
         \<and> (valid_date (y, m, d) \<and> (ds = pad2 d \<or> ds = show_nat d) \<and> (ms = pad2 m \<or> ms = show_nat m)
              \<and> dict_get r ''Order_Date'' = VStr (ds @ ''/'' @ ms @ ''/'' @ pad4 y) \<longrightarrow>
             dict_get (clean_record (columns (DataFrame staged)) r) ''Order_Date''
               = VStr (pad4 y @ ''-'' @ pad2 m @ ''-'' @ pad2 d))
         \<and> (to_datetime (dict_get r ''Order_Date'') = None \<longrightarrow>
             dict_get (clean_record (columns (DataFrame staged)) r) ''Order_Date'' = NaN)"
proof -
  let ?x = "clean_record (columns (DataFrame staged)) r"
  note c = transform_data_Some_columns [OF assms(1)]
  have cell: "dict_get ?x ''Order_Date'' = strftime_Ymd (to_datetime (dict_get r ''Order_Date''))"
    using c(1) by (simp only: clean_record_named)
  have "r \<in> {r \<in> set staged. dict_get r ''Cost'' \<noteq> NaN \<and> dict_get r ''Sales'' \<noteq> NaN}"
    using assms(2,3,4) by simp
  then have a: "?x \<in> set out"
    unfolding transform_data_Some(1) [OF assms(1)] by (rule imageI)
  have b: "valid_date (y, m, d) \<and> (ds = pad2 d \<or> ds = show_nat d) \<and> (ms = pad2 m \<or> ms = show_nat m)
              \<and> dict_get r ''Order_Date'' = VStr (ds @ ''/'' @ ms @ ''/'' @ pad4 y) \<longrightarrow>
           dict_get ?x ''Order_Date'' = VStr (pad4 y @ ''-'' @ pad2 m @ ''-'' @ pad2 d)"
  proof
    assume h: "valid_date (y, m, d) \<and> (ds = pad2 d \<or> ds = show_nat d) \<and> (ms = pad2 m \<or> ms = show_nat m)
              \<and> dict_get r ''Order_Date'' = VStr (ds @ ''/'' @ ms @ ''/'' @ pad4 y)"
    then have "strptime_dmY (ds @ ''/'' @ ms @ ''/'' @ pad4 y) = Some (y, m, d)"
      by (intro strptime_dmY_text) simp_all
    then have "strftime_Ymd (to_datetime (dict_get r ''Order_Date''))
                 = VStr (pad4 y @ ''-'' @ pad2 m @ ''-'' @ pad2 d)"
      using h by simp
    then show "dict_get ?x ''Order_Date'' = VStr (pad4 y @ ''-'' @ pad2 m @ ''-'' @ pad2 d)"
      by (simp only: cell)
  qed
  have n: "to_datetime (dict_get r ''Order_Date'') = None \<longrightarrow> dict_get ?x ''Order_Date'' = NaN"
    by (simp add: cell)
  show ?thesis using a b n by blast
qed

text \<open>Scenario C: \<open>31/01/2024\<close> becomes \<open>2024-01-31\<close>.\<close>

theorem transform_data_order_date_witness:
  "dict_get (clean_record [''Order_Number'', ''Order_Date'', ''Cost'', ''Sales'']
       [(''Order_Number'', VNum 1001), (''Order_Date'', VStr ''31/01/2024''),
        (''Cost'', VNum 3), (''Sales'', VNum 5)]) ''Order_Date'' = VStr ''2024-01-31''"
proof -
  let ?r = "[(''Order_Number'', VNum 1001), (''Order_Date'', VStr ''31/01/2024''),
             (''Cost'', VNum 3), (''Sales'', VNum 5)]"
  let ?x = "[(''Order_Number'', VStr ''1001''), (''Order_Date'', VStr ''2024-01-31''),
             (''Cost'', VNum 3), (''Sales'', VNum 5)]"
  have t: "transform_data [?r] = Inr (Some [?x])" by code_simp
  have m: "?r \<in> set [?r]" by simp
  have c: "dict_get ?r ''Cost'' \<noteq> NaN" by (simp add: dict_get_def)
  have s: "dict_get ?r ''Sales'' \<noteq> NaN" by (simp add: dict_get_def)
  have cols: "columns (DataFrame [?r]) = [''Order_Number'', ''Order_Date'', ''Cost'', ''Sales'']"
    by code_simp
  have v: "valid_date (2024, 1, 31)" by code_simp
  have p: "pad2 31 = ''31''" "pad2 1 = ''01''" "pad4 2024 = ''2024''" by code_simp+
  have od: "dict_get ?r ''Order_Date'' = VStr (pad2 31 @ ''/'' @ pad2 1 @ ''/'' @ pad4 2024)"
    unfolding p by (simp add: dict_get_def)
  have "dict_get (clean_record (columns (DataFrame [?r])) ?r) ''Order_Date''
          = VStr (pad4 2024 @ ''-'' @ pad2 1 @ ''-'' @ pad2 31)"
    using transform_data_order_date [OF t m c s, of 2024 1 31 "pad2 31" "pad2 1"] v od by blast
  then show ?thesis unfolding cols p by simp
qed

section \<open>Properties of the loading stage\<close>

lemma order_number_bound_row: "dict_get (bound_row d) ''Order_Number'' = dict_get d ''Order_Number''"
  by (simp add: bound_row_def upsert_params_def dict_get_def)

lemma bind_params_ok:
  "set upsert_params \<subseteq> fst ` set d \<Longrightarrow> bind_params d = Inr (bound_row d)"
proof -
  assume a: "set upsert_params \<subseteq> fst ` set d"
  have "filter (\<lambda>c. map_of d c = None) upsert_params = []"
  proof (simp only: filter_empty_conv, intro ballI)
    fix c assume "c \<in> set upsert_params"
    then have "c \<in> fst ` set d" using a by blast
    then show "\<not> map_of d c = None" by (simp add: map_of_eq_None_iff)
  qed
  then show ?thesis by (simp add: bind_params_def)
qed

lemma execute_upsert_ok:
  "bind_params d = Inr (bound_row d) \<Longrightarrow>
     execute_upsert d t =
       Inr (if dict_get d ''Order_Number'' \<in> set (order_numbers t) then t else t @ [bound_row d])"
  by (simp add: execute_upsert_def order_number_bound_row)

lemma execute_upsert_Inr:
  "execute_upsert d t = Inr t' \<Longrightarrow>
     t' = (if dict_get d ''Order_Number'' \<in> set (order_numbers t) then t else t @ [bound_row d])"
  by (auto simp: execute_upsert_def bind_params_def order_number_bound_row
      split: sum.splits list.splits if_splits)

lemma order_numbers_append: "order_numbers (t @ u) = order_numbers t @ order_numbers u"
  by (simp add: order_numbers_def)

lemma order_numbers_single: "order_numbers [bound_row d] = [dict_get d ''Order_Number'']"
  by (simp add: order_numbers_def order_number_bound_row)

text \<open>The loop adds rows after the existing ones, never two with one number.\<close>

lemma upsert_rows_appends:
  "\<exists>new. snd (upsert_rows ds t) = t @ new
     \<and> set new \<subseteq> bound_row ` set ds
     \<and> (\<forall>row \<in> set new. dict_get row ''Order_Number'' \<notin> set (order_numbers t))
     \<and> distinct (order_numbers new)"
proof (induction ds arbitrary: t)
  case Nil
  then show ?case by (simp add: order_numbers_def)
next
  case (Cons d ds)
  show ?case
  proof (cases "execute_upsert d t")
    case (Inl e)
    then show ?thesis by (simp add: order_numbers_def)
  next
    case (Inr t')
    note t' = execute_upsert_Inr [OF Inr]
    obtain new where new: "snd (upsert_rows ds t') = t' @ new" "set new \<subseteq> bound_row ` set ds"
        "\<forall>row \<in> set new. dict_get row ''Order_Number'' \<notin> set (order_numbers t')"
        "distinct (order_numbers new)"
      using Cons.IH [of t'] by blast
    show ?thesis
    proof (cases "dict_get d ''Order_Number'' \<in> set (order_numbers t)")
      case True
      then have "t' = t" using t' by simp
      then show ?thesis using new Inr by auto
    next
      case False
      then have e: "t' = t @ [bound_row d]" using t' by simp
      have fresh: "\<forall>row \<in> set new. dict_get row ''Order_Number'' \<noteq> dict_get d ''Order_Number''
                     \<and> dict_get row ''Order_Number'' \<notin> set (order_numbers t)"
        using new(3) by (auto simp: e order_numbers_append order_numbers_single)
      have "snd (upsert_rows (d # ds) t) = t @ (bound_row d # new)"
        using Inr new(1) e by simp
      moreover have "set (bound_row d # new) \<subseteq> bound_row ` set (d # ds)"
        using new(2) by auto
      moreover have "\<forall>row \<in> set (bound_row d # new).
                       dict_get row ''Order_Number'' \<notin> set (order_numbers t)"
        using fresh False by (simp add: order_number_bound_row)
      moreover have "distinct (order_numbers (bound_row d # new))"
      proof -
        have "dict_get d ''Order_Number'' \<notin> set (order_numbers new)"
          using fresh by (auto simp: order_numbers_def)
        then show ?thesis
          using new(4) by (simp add: order_numbers_def order_number_bound_row)
      qed
      ultimately show ?thesis by blast
    qed
  qed
qed

lemma upsert_rows_distinct:
  assumes "distinct (order_numbers t)"
  shows "distinct (order_numbers (snd (upsert_rows ds t)))"
proof -
  obtain new where new: "snd (upsert_rows ds t) = t @ new"
      "\<forall>row \<in> set new. dict_get row ''Order_Number'' \<notin> set (order_numbers t)"
      "distinct (order_numbers new)"
    using upsert_rows_appends [of ds t] by blast
  have "set (order_numbers t) \<inter> set (order_numbers new) = {}"
  proof (rule ccontr)
    assume "set (order_numbers t) \<inter> set (order_numbers new) \<noteq> {}"
    then obtain k where k: "k \<in> set (order_numbers t)" "k \<in> set (order_numbers new)" by blast
    then obtain row where "row \<in> set new" "k = dict_get row ''Order_Number''"
      by (auto simp: order_numbers_def)
    then show False using new(2) k(1) by blast
  qed
  then show ?thesis using assms new(1,3) by (simp add: order_numbers_append)
qed

text \<open>When every row binds, the loop ends without error and every number is in the table.\<close>

lemma upsert_rows_ok:
  assumes "\<forall>d \<in> set ds. bind_params d = Inr (bound_row d)"
  shows "fst (upsert_rows ds t) = Inr ()
     \<and> (\<forall>d \<in> set ds. dict_get d ''Order_Number'' \<in> set (order_numbers (snd (upsert_rows ds t))))
     \<and> (\<forall>d \<in> set ds. dict_get d ''Order_Number'' \<notin> set (order_numbers t) \<longrightarrow>
          (\<exists>d' \<in> set ds. dict_get d' ''Order_Number'' = dict_get d ''Order_Number''
                          \<and> bound_row d' \<in> set (snd (upsert_rows ds t))))"
  using assms
proof (induction ds arbitrary: t)
  case Nil
  then show ?case by simp
next
  case (Cons d ds)
  let ?k = "dict_get d ''Order_Number''"
  let ?t' = "if ?k \<in> set (order_numbers t) then t else t @ [bound_row d]"
  have ex: "execute_upsert d t = Inr ?t'"
    using Cons.prems by (intro execute_upsert_ok) simp
  have step: "upsert_rows (d # ds) t = upsert_rows ds ?t'"
    using ex by simp
  have ih: "fst (upsert_rows ds ?t') = Inr ()"
    "\<forall>d \<in> set ds. dict_get d ''Order_Number'' \<in> set (order_numbers (snd (upsert_rows ds ?t')))"
    "\<forall>x \<in> set ds. dict_get x ''Order_Number'' \<notin> set (order_numbers ?t') \<longrightarrow>
          (\<exists>d' \<in> set ds. dict_get d' ''Order_Number'' = dict_get x ''Order_Number''
                          \<and> bound_row d' \<in> set (snd (upsert_rows ds ?t')))"
    using Cons.IH [of ?t'] Cons.prems by simp_all
  obtain new where new: "snd (upsert_rows ds ?t') = ?t' @ new"
    using upsert_rows_appends [of ds ?t'] by blast
  have kin: "?k \<in> set (order_numbers ?t')"
    by (simp add: order_numbers_append order_numbers_single)
  have k: "?k \<in> set (order_numbers (snd (upsert_rows ds ?t')))"
    using kin unfolding new by (simp only: order_numbers_append set_append) blast
  have ins: "?k \<notin> set (order_numbers t) \<Longrightarrow> bound_row d \<in> set (snd (upsert_rows ds ?t'))"
    unfolding new by simp
  have third: "\<forall>x \<in> set (d # ds). dict_get x ''Order_Number'' \<notin> set (order_numbers t) \<longrightarrow>
          (\<exists>d' \<in> set (d # ds). dict_get d' ''Order_Number'' = dict_get x ''Order_Number''
                          \<and> bound_row d' \<in> set (snd (upsert_rows ds ?t')))"
  proof (intro ballI impI)
    fix x assume x: "x \<in> set (d # ds)" and nx: "dict_get x ''Order_Number'' \<notin> set (order_numbers t)"
    show "\<exists>d' \<in> set (d # ds). dict_get d' ''Order_Number'' = dict_get x ''Order_Number''
                          \<and> bound_row d' \<in> set (snd (upsert_rows ds ?t'))"
    proof (cases "dict_get x ''Order_Number'' = ?k")
      case True
      then have "bound_row d \<in> set (snd (upsert_rows ds ?t'))" using ins nx by simp
      then show ?thesis using True by auto
    next
      case False
      then have xs: "x \<in> set ds" using x by auto
      have "dict_get x ''Order_Number'' \<notin> set (order_numbers ?t')"
        using False nx by (simp add: order_numbers_append order_numbers_single)
      then show ?thesis using ih(3) xs by auto
    qed
  qed
  show ?case unfolding step using ih(1,2) k third by simp
qed

lemma to_dict_records_DataFrame:
  "to_dict_records (DataFrame recs)
     = map (\<lambda>d. zip (columns (DataFrame recs)) (map (dict_get d) (columns (DataFrame recs)))) recs"
  by (simp add: to_dict_records_distinct distinct_columns_DataFrame rows_DataFrame o_def)

lemma dict_get_padded:
  "d \<in> set recs \<Longrightarrow>
     dict_get (zip (columns (DataFrame recs)) (map (dict_get d) (columns (DataFrame recs)))) c
       = dict_get d c"
  by (simp only: dict_get_zip cell_DataFrame)

lemma bound_row_padded:
  "d \<in> set recs \<Longrightarrow>
     bound_row (zip (columns (DataFrame recs)) (map (dict_get d) (columns (DataFrame recs))))
       = bound_row d"
  by (simp add: bound_row_def dict_get_padded)

lemma keys_padded: "fst ` set (zip cols (map f cols)) = set cols"
  by (simp add: zip_map_self image_image)

lemma count_list_fresh: "k \<notin> set xs \<Longrightarrow> count_list xs k = 0"
  by (induction xs) auto

text \<open>
  C8. The cleaned records are given to the loading stage; the frame built
  from them has the fourteen columns of the statement. Then the stage ends
  without error. The table it leaves is the old one followed by new rows:
  no existing row is changed. No new row has a number that was in the table,
  so a number that was there once is there once. Every record's number is in
  the table afterwards, and a number that was not there has the row bound
  from a record with that number among the new rows: the records after a
  conflict are still inserted.
\<close>

theorem upsert_skips_existing:
  assumes "set upsert_params \<subseteq> (\<Union>d \<in> set cleaned. fst ` set d)"
  shows "\<exists>new. load_transformed_data_to_postgresql (Some cleaned) dest = (Inr (), dest @ new)
      \<and> (\<forall>row \<in> set new. dict_get row ''Order_Number'' \<notin> set (order_numbers dest))
      \<and> (\<forall>k \<in> set (order_numbers dest).
            count_list (order_numbers (dest @ new)) k = count_list (order_numbers dest) k)
      \<and> (\<forall>d \<in> set cleaned. dict_get d ''Order_Number'' \<in> set (order_numbers (dest @ new)))
      \<and> (\<forall>d \<in> set cleaned. dict_get d ''Order_Number'' \<notin> set (order_numbers dest) \<longrightarrow>
            (\<exists>d' \<in> set cleaned. dict_get d' ''Order_Number'' = dict_get d ''Order_Number''
                                 \<and> bound_row d' \<in> set new))"
proof -
  let ?cols = "columns (DataFrame cleaned)"
  let ?pad = "\<lambda>d. zip ?cols (map (dict_get d) ?cols)"
  let ?ds = "map ?pad cleaned"
  have run: "load_transformed_data_to_postgresql (Some cleaned) dest = upsert_rows ?ds dest"
    by (simp add: load_transformed_data_to_postgresql_def DataFrame_opt_def to_dict_records_DataFrame)
  have cols: "set upsert_params \<subseteq> set ?cols"
    using assms by (simp only: columns_DataFrame)
  have bind: "\<forall>d \<in> set ?ds. bind_params d = Inr (bound_row d)"
  proof
    fix d assume "d \<in> set ?ds"
    then obtain d0 where "d = ?pad d0" by auto
    then have "fst ` set d = set ?cols" by (simp only: keys_padded)
    then show "bind_params d = Inr (bound_row d)" using cols by (intro bind_params_ok) simp
  qed
  note ok = upsert_rows_ok [OF bind, of dest]
  obtain new where new: "snd (upsert_rows ?ds dest) = dest @ new"
      "set new \<subseteq> bound_row ` set ?ds"
      "\<forall>row \<in> set new. dict_get row ''Order_Number'' \<notin> set (order_numbers dest)"
    using upsert_rows_appends [of ?ds dest] by blast
  have res: "load_transformed_data_to_postgresql (Some cleaned) dest = (Inr (), dest @ new)"
    using ok new(1) run by (simp add: prod_eq_iff)
  have count: "\<forall>k \<in> set (order_numbers dest).
            count_list (order_numbers (dest @ new)) k = count_list (order_numbers dest) k"
  proof
    fix k assume k: "k \<in> set (order_numbers dest)"
    have "k \<notin> set (order_numbers new)"
    proof
      assume "k \<in> set (order_numbers new)"
      then obtain row where "row \<in> set new" "k = dict_get row ''Order_Number''"
        by (auto simp: order_numbers_def)
      then show False using new(3) k by blast
    qed
    then show "count_list (order_numbers (dest @ new)) k = count_list (order_numbers dest) k"
      by (simp add: order_numbers_append count_list_fresh)
  qed
  have all: "\<forall>d \<in> set cleaned. dict_get d ''Order_Number'' \<in> set (order_numbers (dest @ new))"
  proof
    fix d assume d: "d \<in> set cleaned"
    then have "?pad d \<in> set ?ds" by simp
    then have "dict_get (?pad d) ''Order_Number'' \<in> set (order_numbers (snd (upsert_rows ?ds dest)))"
      using ok by blast
    then show "dict_get d ''Order_Number'' \<in> set (order_numbers (dest @ new))"
      using dict_get_padded [OF d] unfolding new(1) by simp
  qed
  have ins: "\<forall>d \<in> set cleaned. dict_get d ''Order_Number'' \<notin> set (order_numbers dest) \<longrightarrow>
            (\<exists>d' \<in> set cleaned. dict_get d' ''Order_Number'' = dict_get d ''Order_Number''
                                 \<and> bound_row d' \<in> set new)"
  proof (intro ballI impI)
    fix d assume d: "d \<in> set cleaned" and n: "dict_get d ''Order_Number'' \<notin> set (order_numbers dest)"
    have p: "?pad d \<in> set ?ds" using d by simp
    have "dict_get (?pad d) ''Order_Number'' = dict_get d ''Order_Number''"
      using d by (rule dict_get_padded)
    then have n': "dict_get (?pad d) ''Order_Number'' \<notin> set (order_numbers dest)"
      using n by simp
    obtain x where x: "x \<in> set ?ds"
        "dict_get x ''Order_Number'' = dict_get (?pad d) ''Order_Number''"
        "bound_row x \<in> set (snd (upsert_rows ?ds dest))"
      using ok p n' by blast
    obtain d' where d': "d' \<in> set cleaned" "x = ?pad d'" using x(1) by auto
    have k: "dict_get d' ''Order_Number'' = dict_get d ''Order_Number''"
      using x(2) dict_get_padded [OF d] dict_get_padded [OF d'(1)] unfolding d'(2) by simp
    have b: "bound_row d' \<in> set (dest @ new)"
      using x(3) bound_row_padded [OF d'(1)] unfolding d'(2) new(1) by simp
    have "bound_row d' \<notin> set dest"
    proof
      assume "bound_row d' \<in> set dest"
      then have "dict_get (bound_row d') ''Order_Number'' \<in> set (order_numbers dest)"
        by (simp add: order_numbers_def)
      then show False using n k by (simp add: order_number_bound_row)
    qed
    then have "bound_row d' \<in> set new" using b by simp
    then show "\<exists>d' \<in> set cleaned. dict_get d' ''Order_Number'' = dict_get d ''Order_Number''
                                 \<and> bound_row d' \<in> set new"
      using d'(1) k by blast
  qed
  show ?thesis using res new(3) count all ins by blast
qed


text \<open>
  Scenario E: the table has a row with the number 2002; records with the
  numbers 2002 and 2003 are loaded; no error, and 2002 is in the table once.
\<close>

theorem upsert_skips_existing_witness:
  "\<exists>new. load_transformed_data_to_postgresql
       (Some [(''Order_Number'', VStr ''2002'') # map (\<lambda>c. (c, VStr ''new'')) (tl upsert_params),
              (''Order_Number'', VStr ''2003'') # map (\<lambda>c. (c, VStr ''new'')) (tl upsert_params)])
       [[(''Order_Number'', VStr ''2002''), (''Status'', VStr ''old'')]]
     = (Inr (), [[(''Order_Number'', VStr ''2002''), (''Status'', VStr ''old'')]] @ new)
     \<and> count_list (order_numbers ([[(''Order_Number'', VStr ''2002''), (''Status'', VStr ''old'')]] @ new))
          (VStr ''2002'') = 1
     \<and> VStr ''2003'' \<in> set (order_numbers new)"
proof -
  let ?a = "(''Order_Number'', VStr ''2002'') # map (\<lambda>c. (c, VStr ''new'')) (tl upsert_params)"
  let ?b = "(''Order_Number'', VStr ''2003'') # map (\<lambda>c. (c, VStr ''new'')) (tl upsert_params)"
  let ?dest = "[[(''Order_Number'', VStr ''2002''), (''Status'', VStr ''old'')]]"
  have h: "set upsert_params \<subseteq> (\<Union>d \<in> set [?a, ?b]. fst ` set d)"
    by (simp add: upsert_params_def)
  have kb: "dict_get ?b ''Order_Number'' = VStr ''2003''" by (simp add: dict_get_def)
  have on: "order_numbers ?dest = [VStr ''2002'']" by (simp add: order_numbers_def dict_get_def)
  obtain new where new:
      "load_transformed_data_to_postgresql (Some [?a, ?b]) ?dest = (Inr (), ?dest @ new)"
      "\<forall>k \<in> set (order_numbers ?dest).
         count_list (order_numbers (?dest @ new)) k = count_list (order_numbers ?dest) k"
      "\<forall>d \<in> set [?a, ?b]. dict_get d ''Order_Number'' \<in> set (order_numbers (?dest @ new))"
    using upsert_skips_existing [OF h, of ?dest] by blast
  have "count_list (order_numbers (?dest @ new)) (VStr ''2002'')
          = count_list (order_numbers ?dest) (VStr ''2002'')"
    using new(2) unfolding on by simp
  then have c: "count_list (order_numbers (?dest @ new)) (VStr ''2002'') = 1"
    unfolding on by simp
  have "dict_get ?b ''Order_Number'' \<in> set (order_numbers (?dest @ new))"
    using new(3) by simp
  then have "VStr ''2003'' \<in> set (order_numbers new)"
    unfolding kb order_numbers_append on by simp
  then show ?thesis using new(1) c by blast
qed

section \<open>Two runs of the DAG\<close>

lemma with_retry_load:
  "with_retry (load_data_to_mysql recs) st = load_data_to_mysql recs st"
proof (cases "''Order_Number'' \<in> set (columns (DataFrame recs))")
  case True
  then show ?thesis by (simp add: with_retry_def load_data_to_mysql_present Let_def)
next
  case False
  then show ?thesis by (simp add: with_retry_def load_data_to_mysql_missing)
qed

lemma read_sql_append:
  "read_sql_Order_Number (t @ u) = read_sql_Order_Number t @ read_sql_Order_Number u"
  by (simp add: read_sql_Order_Number_def)

text \<open>After one staging nothing of the same input is new.\<close>

lemma load_data_to_mysql_again:
  assumes "''Order_Number'' \<in> set (columns (DataFrame recs))"
    and "load_data_to_mysql recs st = (res, st')"
  shows "load_data_to_mysql recs st' = (Inr [], st')"
proof -
  let ?R = "to_dict_records (DataFrame recs)"
  let ?B = "filter (\<lambda>r. dict_get r ''Order_Number'' \<notin> set (read_sql_Order_Number st)) ?R"
  have st': "st' = st @ ?B"
    using assms by (simp add: load_data_to_mysql_present Let_def)
  have "filter (\<lambda>r. dict_get r ''Order_Number'' \<notin> set (read_sql_Order_Number (st @ ?B))) ?R = []"
  proof (simp only: filter_empty_conv, intro ballI notI)
    fix r assume r: "r \<in> set ?R"
      and n: "dict_get r ''Order_Number'' \<notin> set (read_sql_Order_Number (st @ ?B))"
    then have "dict_get r ''Order_Number'' \<notin> set (read_sql_Order_Number st)"
      by (simp add: read_sql_append)
    then have "r \<in> set ?B" using r by simp
    then have "dict_get r ''Order_Number'' \<in> set (read_sql_Order_Number ?B)"
      unfolding read_sql_Order_Number_def by (simp only: set_map) (rule imageI)
    then show False using n by (simp add: read_sql_append)
  qed
  then show ?thesis
    using assms(1) by (simp add: load_data_to_mysql_present Let_def st')
qed

lemma transform_data_Nil: "transform_data [] = Inr None"
  by (simp add: transform_data_def DataFrame_def)

lemma load_transformed_None: "load_transformed_data_to_postgresql None dest = (Inr (), dest)"
  by (simp add: load_transformed_data_to_postgresql_def DataFrame_opt_def DataFrame_def
      to_dict_records_def)

lemma stores_eq: "\<lparr>staging = staging s, destination = destination s\<rparr> = s"
  by simp

text \<open>A run with nothing new to stage changes neither store.\<close>

lemma run_dag_nothing_new:
  assumes "load_data_to_mysql recs (staging s) = (Inr [], staging s)"
  shows "run_dag recs s = s"
  using assms
  by (simp add: run_dag_def with_retry_load transform_data_Nil load_transformed_None with_retry_def)

lemma run_dag_staging:
  "staging (run_dag recs s) = snd (load_data_to_mysql recs (staging s))"
  by (simp add: run_dag_def with_retry_load split: prod.splits sum.splits)

lemma run_dag_load_fails:
  assumes "''Order_Number'' \<notin> set (columns (DataFrame recs))"
  shows "run_dag recs s = s"
  using assms by (simp add: run_dag_def with_retry_load load_data_to_mysql_missing)

lemma with_retry_upsert:
  "\<exists>new. snd (with_retry (load_transformed_data_to_postgresql x) dest) = dest @ new
     \<and> (distinct (order_numbers dest) \<longrightarrow> distinct (order_numbers (dest @ new)))"
proof -
  let ?ds = "to_dict_records (DataFrame_opt x)"
  obtain n1 where n1: "snd (upsert_rows ?ds dest) = dest @ n1"
    using upsert_rows_appends [of ?ds dest] by blast
  obtain n2 where n2: "snd (upsert_rows ?ds (dest @ n1)) = (dest @ n1) @ n2"
    using upsert_rows_appends [of ?ds "dest @ n1"] by blast
  have d1: "distinct (order_numbers dest) \<Longrightarrow> distinct (order_numbers (dest @ n1))"
    using upsert_rows_distinct [of dest ?ds] n1 by simp
  have d2: "distinct (order_numbers dest) \<Longrightarrow> distinct (order_numbers (dest @ (n1 @ n2)))"
    using upsert_rows_distinct [of "dest @ n1" ?ds] d1 n2 by simp
  obtain r1 t1 where u: "upsert_rows ?ds dest = (r1, t1)"
    by (cases "upsert_rows ?ds dest")
  have t1: "t1 = dest @ n1" using n1 u by simp
  show ?thesis
  proof (cases r1)
    case (Inl e)
    have "with_retry (load_transformed_data_to_postgresql x) dest = upsert_rows ?ds t1"
      using u Inl by (simp add: with_retry_def load_transformed_data_to_postgresql_def)
    then have "snd (with_retry (load_transformed_data_to_postgresql x) dest) = dest @ (n1 @ n2)"
      using n2 t1 by simp
    then show ?thesis using d2 by blast
  next
    case (Inr v)
    have "with_retry (load_transformed_data_to_postgresql x) dest = (Inr v, t1)"
      using u Inr by (simp add: with_retry_def load_transformed_data_to_postgresql_def)
    then have "snd (with_retry (load_transformed_data_to_postgresql x) dest) = dest @ n1"
      using t1 by simp
    then show ?thesis using d1 by blast
  qed
qed

lemma run_dag_destination:
  "\<exists>new. destination (run_dag recs s) = destination s @ new
     \<and> (distinct (order_numbers (destination s)) \<longrightarrow>
          distinct (order_numbers (destination s @ new)))"
proof -
  obtain res st where l: "with_retry (load_data_to_mysql recs) (staging s) = (res, st)"
    by (cases "with_retry (load_data_to_mysql recs) (staging s)")
  show ?thesis
  proof (cases res)
    case (Inl e)
    then have "destination (run_dag recs s) = destination s @ []"
      using l by (simp add: run_dag_def)
    then show ?thesis by (metis append_Nil2)
  next
    case (Inr staged)
    obtain r2 u where t: "with_retry (\<lambda>u. (transform_data staged, u)) () = (r2, u)"
      by (cases "with_retry (\<lambda>u. (transform_data staged, u)) ()")
    show ?thesis
    proof (cases r2)
      case (Inl e)
      then have "destination (run_dag recs s) = destination s @ []"
        using l Inr t by (simp add: run_dag_def)
      then show ?thesis by (metis append_Nil2)
    next
      case inner: (Inr x)
      have "destination (run_dag recs s)
              = snd (with_retry (load_transformed_data_to_postgresql x) (destination s))"
        using l Inr t inner by (simp add: run_dag_def split: prod.splits)
      then show ?thesis using with_retry_upsert [of x "destination s"] by simp
    qed
  qed
qed

end
